theory Spec2Isabelle
  imports Main "HOL-Library.List_Lexorder" "HOL-Library.Sublist" "HOL-Library.Multiset"
    "HOL-Library.Word"
begin

section \<open>Python values\<close>

text \<open>
  A Python \<open>str\<close> is a sequence of Unicode code points; \<open>sorted\<close>, \<open>==\<close> and \<open>in\<close> on
  strings work code point by code point. A string is therefore a list of naturals, ordered
  lexicographically (a proper prefix is smaller), which is the order of
  \<open>HOL-Library.List_Lexorder\<close>. \<open>S\<close> turns an ASCII literal into its code points.
\<close>

type_synonym pystr = "nat list"

definition S :: "string \<Rightarrow> pystr" where
  "S s = map of_char s"

text \<open>
  Values that travel as JSON between the client, the oracle and the model. A float is kept
  as its 64-bit pattern: the client never computes with one. A \<open>dict\<close> is an association
  list in insertion order; a well-formed one has distinct keys.
\<close>

datatype json =
    JNull
  | JBool bool
  | JInt int
  | JFloat "64 word"
  | JStr pystr
  | JList "json list"
  | JDict "(pystr \<times> json) list"

type_synonym dict = "(pystr \<times> json) list"

text \<open>The exceptions that the modelled code can raise.\<close>

datatype exn =
    ValueError
  | KeyError
  | TypeError
  | IndexError
  | AttributeError
  | JSONDecodeError
  | MsgLimitException
  | LengthFinishReasonError
  | SystemExit int
  | KeyboardInterrupt
  | OtherError pystr

text \<open>\<open>chr(i)\<close>: defined on \<open>range(0x110000)\<close>, a \<open>ValueError\<close> outside.\<close>

definition py_chr :: "nat \<Rightarrow> exn + pystr" where
  "py_chr i = (if i < 0x110000 then Inr [i] else Inl ValueError)"

text \<open>
  A list comprehension whose element expression can raise: the elements are evaluated from
  left to right and the first exception ends the comprehension.
\<close>

fun comprehension :: "('a \<Rightarrow> exn + 'b) \<Rightarrow> 'a list \<Rightarrow> exn + 'b list" where
  "comprehension f [] = Inr []"
| "comprehension f (x # xs) =
     (case f x of
        Inl e \<Rightarrow> Inl e
      | Inr y \<Rightarrow> (case comprehension f xs of Inl e \<Rightarrow> Inl e | Inr ys \<Rightarrow> Inr (y # ys)))"

text \<open>\<open>d[key]\<close> on a dict: the value stored under the key, a \<open>KeyError\<close> when there is none.\<close>

definition dict_getitem :: "(pystr \<times> 'v) list \<Rightarrow> pystr \<Rightarrow> exn + 'v" where
  "dict_getitem d k = (case map_of d k of None \<Rightarrow> Inl KeyError | Some v \<Rightarrow> Inr v)"

text \<open>\<open>d.get(key, default)\<close>.\<close>

definition dict_get :: "(pystr \<times> 'v) list \<Rightarrow> pystr \<Rightarrow> 'v \<Rightarrow> 'v" where
  "dict_get d k dflt = (case map_of d k of None \<Rightarrow> dflt | Some v \<Rightarrow> v)"

section \<open>Tool arguments: \<open>investigate.py\<close>, \<open>list_to_map\<close> and \<open>normalize_args\<close>\<close>

text \<open>
  \<^verbatim>\<open>keys = [chr(97 + i) for i in range(len(input_list))]\<close>
  \<^verbatim>\<open>return {key: {"type": item} for key, item in zip(keys, input_list)}\<close>
\<close>

definition list_to_map :: "'a list \<Rightarrow> exn + (pystr \<times> (pystr \<times> 'a) list) list" where
  "list_to_map input_list =
     (case comprehension (\<lambda>i. py_chr (97 + i)) [0..<length input_list] of
        Inl e \<Rightarrow> Inl e
      | Inr keys \<Rightarrow> Inr (map (\<lambda>(key, item). (key, [(S ''type'', item)])) (zip keys input_list)))"

text \<open>
  \<^verbatim>\<open>return [input_dict[key] for key in sorted(input_dict.keys())]\<close>
\<close>

definition normalize_args :: "(pystr \<times> 'v) list \<Rightarrow> exn + 'v list" where
  "normalize_args input_dict = comprehension (dict_getitem input_dict) (sort (map fst input_dict))"

section \<open>The conversation: \<open>investigate.py\<close>\<close>

text \<open>
  The content of a completion is a list of blocks of the provider's SDK. The client looks
  at four kinds; every other kind of block is \<open>OtherBlock\<close>.
\<close>

datatype tool_use = ToolUseBlock (call_id: pystr) (call_name: pystr) (call_input: dict)

datatype block =
    ThinkingBlock pystr pystr
  | RedactedThinkingBlock pystr
  | TextBlock pystr
  | ToolUse tool_use
  | OtherBlock

text \<open>
  The blocks that the client writes into the transcript: the dicts
  \<open>{"type": "thinking", ...}\<close>, \<open>{"type": "redacted_thinking"}\<close>, \<open>{"type": "text", ...}\<close>,
  \<open>{"type": "tool_result", "tool_use_id": ..., "content": ...}\<close>, and the tool-use blocks of
  the completion themselves.
\<close>

datatype content_block =
    Thinking pystr pystr
  | RedactedThinking
  | Text pystr
  | ToolCall tool_use
  | ToolResult (tool_use_id: pystr) (result_content: pystr)

datatype message_content = Plain pystr | Blocks "content_block list"

record message =
  role :: pystr
  message_content :: message_content

record tool =
  tool_name :: pystr
  tool_description :: pystr
  tool_properties :: "(pystr \<times> (pystr \<times> json) list) list"
  tool_required :: "pystr list"

text \<open>
  The oracle and the model are outside the program. A request to the oracle is an endpoint
  and a payload; its reply is a JSON object, which may depend on every request made before.
  The model's completion may depend on the number of completions requested before, on the
  transcript and on the tools offered. The \<open>world\<close> records what has been asked so far:
  \<open>oracle_log\<close> the requests to the oracle, in order, and \<open>total_call_count\<close> the number
  of completions requested (the counter of the rate limiter that wraps the model).
  Both calls are taken to return; a transport error would leave the loops as an exception.
\<close>

type_synonym request = "pystr \<times> json"
type_synonym postfn = "request list \<Rightarrow> request \<Rightarrow> dict"
type_synonym completionfn = "nat \<Rightarrow> message list \<Rightarrow> tool list option \<Rightarrow> block list"

record world =
  oracle_log :: "request list"
  total_call_count :: nat

definition call_post :: "postfn \<Rightarrow> world \<Rightarrow> request \<Rightarrow> dict \<times> world" where
  "call_post postfn w req = (postfn (oracle_log w) req, w\<lparr>oracle_log := oracle_log w @ [req]\<rparr>)"

definition call_completion ::
  "completionfn \<Rightarrow> world \<Rightarrow> message list \<Rightarrow> tool list option \<Rightarrow> block list \<times> world" where
  "call_completion completionfn w msgs tls =
     (completionfn (total_call_count w) msgs tls, w\<lparr>total_call_count := Suc (total_call_count w)\<rparr>)"

text \<open>
  \<^verbatim>\<open>thinking_block = next((item for item in content if isinstance(item, ThinkingBlock)), None)\<close>
  and likewise for the redacted block and the text; the tool-use blocks are all kept.
\<close>

fun is_ThinkingBlock :: "block \<Rightarrow> bool" where
  "is_ThinkingBlock (ThinkingBlock _ _) = True"
| "is_ThinkingBlock _ = False"

fun is_RedactedThinkingBlock :: "block \<Rightarrow> bool" where
  "is_RedactedThinkingBlock (RedactedThinkingBlock _) = True"
| "is_RedactedThinkingBlock _ = False"

fun text_of :: "block \<Rightarrow> pystr option" where
  "text_of (TextBlock t) = Some t"
| "text_of _ = None"

fun tool_use_of :: "block \<Rightarrow> tool_use option" where
  "tool_use_of (ToolUse c) = Some c"
| "tool_use_of _ = None"

definition first_text :: "block list \<Rightarrow> pystr option" where
  "first_text content = (case List.map_filter text_of content of [] \<Rightarrow> None | t # _ \<Rightarrow> Some t)"

definition parse_completion ::
  "block list \<Rightarrow> block option \<times> block option \<times> pystr option \<times> tool_use list" where
  "parse_completion content =
     (find is_ThinkingBlock content,
      find is_RedactedThinkingBlock content,
      first_text content,
      List.map_filter tool_use_of content)"

text \<open>
  \<open>handle_tool_call\<close>. \<open>dumps\<close> stands for \<open>json.dumps\<close>; the printer only writes to the
  console and is left out.
\<close>

definition handle_tool_call ::
  "postfn \<Rightarrow> (json \<Rightarrow> pystr) \<Rightarrow> json \<Rightarrow> tool_use \<Rightarrow> world \<Rightarrow> (exn + content_block) \<times> world" where
  "handle_tool_call postfn dumps attempt_id call w =
     (let arguments = call_input call;
          call_id = call_id call
      in case normalize_args arguments of
           Inl e \<Rightarrow> (Inl e, w)
         | Inr args_norm \<Rightarrow>
             (let (response, w') = call_post postfn w
                    (S ''test-function'',
                     JDict [(S ''attempt-id'', attempt_id), (S ''args'', JList args_norm)]);
                  fnoutput = dict_get response (S ''output'') (JStr (S ''Error calling tool''))
              in (Inr (ToolResult call_id (dumps fnoutput)), w')))"

text \<open>
  The inner loop of \<open>investigate\<close>:
  \<^verbatim>\<open>for call in tool_calls:\<close>
  \<^verbatim>\<open>    tool_call_user_message["content"].append(handle_tool_call(postfn, printer, attempt_id, call))\<close>
  \<^verbatim>\<open>    tool_call_counter += 1\<close>
\<close>

fun handle_tool_calls ::
  "postfn \<Rightarrow> (json \<Rightarrow> pystr) \<Rightarrow> json \<Rightarrow> tool_use list \<Rightarrow> content_block list \<times> nat \<times> world
     \<Rightarrow> (exn + content_block list \<times> nat) \<times> world" where
  "handle_tool_calls postfn dumps attempt_id [] (results, tool_call_counter, w) =
     (Inr (results, tool_call_counter), w)"
| "handle_tool_calls postfn dumps attempt_id (call # calls) (results, tool_call_counter, w) =
     (case handle_tool_call postfn dumps attempt_id call w of
        (Inl e, w') \<Rightarrow> (Inl e, w')
      | (Inr result, w') \<Rightarrow>
          handle_tool_calls postfn dumps attempt_id calls
            (results @ [result], tool_call_counter + 1, w'))"

text \<open>
  The blocks of the assistant message, from the parts of the completion: the reasoning
  block, the redacted marker and the text, each only when present.
\<close>

definition assistant_blocks :: "block option \<Rightarrow> block option \<Rightarrow> pystr option \<Rightarrow> content_block list" where
  "assistant_blocks thinking redacted_thinking message =
     (case thinking of Some (ThinkingBlock t s) \<Rightarrow> [Thinking t s] | _ \<Rightarrow> [])
     @ (case redacted_thinking of Some _ \<Rightarrow> [RedactedThinking] | None \<Rightarrow> [])
     @ (case message of Some m \<Rightarrow> [Text m] | None \<Rightarrow> [])"

text \<open>
  One pass through the body of \<^verbatim>\<open>for count in range(0, msg_limit)\<close>: either the loop goes
  on with a longer transcript and a larger counter, or \<open>investigate\<close> returns.
\<close>

datatype turn = Next "message list" nat | Return "message list" nat

definition investigate_turn ::
  "postfn \<Rightarrow> completionfn \<Rightarrow> (json \<Rightarrow> pystr) \<Rightarrow> json \<Rightarrow> tool list
     \<Rightarrow> message list \<times> nat \<times> world \<Rightarrow> (exn + turn) \<times> world" where
  "investigate_turn postfn completionfn dumps attempt_id tools st =
     (case st of (messages, tool_call_counter, w) \<Rightarrow>
       (let (completion, w1) = call_completion completionfn w messages (Some tools);
            (thinking, redacted_thinking, message, tool_calls) = parse_completion completion
        in if tool_calls \<noteq> [] then
             (let content_blocks =
                    assistant_blocks thinking redacted_thinking message @ map ToolCall tool_calls;
                  messages1 = messages @ [\<lparr>role = S ''assistant'', message_content = Blocks content_blocks\<rparr>]
              in case handle_tool_calls postfn dumps attempt_id tool_calls
                        ([], tool_call_counter, w1) of
                   (Inl e, w2) \<Rightarrow> (Inl e, w2)
                 | (Inr (results, tool_call_counter'), w2) \<Rightarrow>
                     (Inr (Next (messages1 @ [\<lparr>role = S ''user'', message_content = Blocks results\<rparr>])
                                tool_call_counter'), w2))
           else
             (let content_blocks = assistant_blocks thinking redacted_thinking message
              in (Inr (Return (messages @ [\<lparr>role = S ''assistant'', message_content = Blocks content_blocks\<rparr>])
                              tool_call_counter), w1))))"

fun investigate_loop ::
  "postfn \<Rightarrow> completionfn \<Rightarrow> (json \<Rightarrow> pystr) \<Rightarrow> json \<Rightarrow> tool list
     \<Rightarrow> nat \<Rightarrow> message list \<times> nat \<times> world \<Rightarrow> (exn + message list \<times> nat) \<times> world" where
  "investigate_loop postfn completionfn dumps attempt_id tools 0 (messages, tool_call_counter, w) =
     (Inl MsgLimitException, w)"
| "investigate_loop postfn completionfn dumps attempt_id tools (Suc n) (messages, tool_call_counter, w) =
     (case investigate_turn postfn completionfn dumps attempt_id tools (messages, tool_call_counter, w) of
        (Inl e, w') \<Rightarrow> (Inl e, w')
      | (Inr (Return messages' counter'), w') \<Rightarrow> (Inr (messages', counter'), w')
      | (Inr (Next messages' counter'), w') \<Rightarrow>
          investigate_loop postfn completionfn dumps attempt_id tools n (messages', counter', w'))"

definition investigate ::
  "int \<Rightarrow> postfn \<Rightarrow> completionfn \<Rightarrow> (json \<Rightarrow> pystr) \<Rightarrow> message list \<Rightarrow> json \<Rightarrow> json list
     \<Rightarrow> world \<Rightarrow> (exn + message list \<times> nat) \<times> world" where
  "investigate msg_limit postfn completionfn dumps messages attempt_id arg_spec w =
     (case list_to_map arg_spec of
        Inl e \<Rightarrow> (Inl e, w)
      | Inr mapped_args \<Rightarrow>
          (let tools = [\<lparr>tool_name = S ''mystery_function'',
                         tool_description = S ''Use this tool to test the mystery function.'',
                         tool_properties = mapped_args,
                         tool_required = map fst mapped_args\<rparr>]
           in investigate_loop postfn completionfn dumps attempt_id tools (nat msg_limit)
                (messages, 0, w)))"

section \<open>The verification loop: \<open>sherlockbench_anthropic/verify.py\<close>\<close>

text \<open>
  \<open>str.isspace\<close> of a character: the code points that Python counts as whitespace, which
  are the ones \<open>str.strip()\<close> removes from both ends.
\<close>

definition py_isspace :: "nat \<Rightarrow> bool" where
  "py_isspace c \<longleftrightarrow>
     (9 \<le> c \<and> c \<le> 13) \<or> (28 \<le> c \<and> c \<le> 32) \<or> c = 133 \<or> c = 160 \<or> c = 5760
     \<or> (8192 \<le> c \<and> c \<le> 8202) \<or> c = 8232 \<or> c = 8233 \<or> c = 8239 \<or> c = 8287 \<or> c = 12288"

definition py_strip :: "pystr \<Rightarrow> pystr" where
  "py_strip s = rev (dropWhile py_isspace (rev (dropWhile py_isspace s)))"

text \<open>\<open>s in t\<close> on strings: \<open>s\<close> occurs in \<open>t\<close> as a contiguous substring.\<close>

fun str_in :: "pystr \<Rightarrow> pystr \<Rightarrow> bool" where
  "str_in s [] = (s = [])"
| "str_in s (c # t) = (prefix s (c # t) \<or> str_in s t)"

text \<open>
  The lines that strip the code fence:
  \<^verbatim>\<open>cleaned_response = response\<close>
  \<^verbatim>\<open>if cleaned_response and cleaned_response.strip().startswith("```json"):\<close>
  \<^verbatim>\<open>    cleaned_response = cleaned_response.strip()[7:].strip()\<close>
  \<^verbatim>\<open>if cleaned_response and cleaned_response.strip().endswith("```"):\<close>
  \<^verbatim>\<open>    cleaned_response = cleaned_response.strip()[:-3].strip()\<close>
  The response is \<open>None\<close> when the completion has no text block.
\<close>

definition clean_response :: "pystr option \<Rightarrow> pystr option" where
  "clean_response response =
     (let cleaned_response = response;
          cleaned_response =
            (case cleaned_response of
               None \<Rightarrow> None
             | Some c \<Rightarrow>
                 if c \<noteq> [] \<and> prefix (S ''```json'') (py_strip c)
                 then Some (py_strip (drop 7 (py_strip c))) else Some c);
          cleaned_response =
            (case cleaned_response of
               None \<Rightarrow> None
             | Some c \<Rightarrow>
                 if c \<noteq> [] \<and> suffix (S ''```'') (py_strip c)
                 then Some (py_strip (take (length (py_strip c) - 3) (py_strip c))) else Some c)
      in cleaned_response)"

text \<open>
  The body of the \<open>try\<close>: the fence is stripped, the text is parsed, the two fields are
  taken out. \<open>loads\<close> stands for \<open>json.loads\<close> on a string and \<open>destructure\<close> for the helper
  of \<open>sherlockbench_client\<close>, both outside these sources; \<open>json.loads(None)\<close> is a
  \<open>TypeError\<close>, and unpacking anything but two values is a \<open>ValueError\<close>.
\<close>

definition parse_response ::
  "(pystr \<Rightarrow> exn + json) \<Rightarrow> (json \<Rightarrow> pystr list \<Rightarrow> exn + json list) \<Rightarrow> pystr option
     \<Rightarrow> exn + json \<times> json" where
  "parse_response loads destructure response =
     (case clean_response response of
        None \<Rightarrow> Inl TypeError
      | Some cleaned_response \<Rightarrow>
          (case loads cleaned_response of
             Inl e \<Rightarrow> Inl e
           | Inr parsed \<Rightarrow>
               (case destructure parsed [S ''thoughts'', S ''expected_output''] of
                  Inl e \<Rightarrow> Inl e
                | Inr [thoughts, expected_output] \<Rightarrow> Inr (thoughts, expected_output)
                | Inr _ \<Rightarrow> Inl ValueError)))"

text \<open>
  \<^verbatim>\<open>while attempts < 3:\<close> with \<open>thoughts\<close> and \<open>expected_output\<close> set to \<open>""\<close> before it. A
  \<open>JSONDecodeError\<close> in the \<open>try\<close> is caught and counted; every other exception leaves the
  loop and \<open>verify\<close>.
\<close>

function verification_attempts ::
  "completionfn \<Rightarrow> (pystr \<Rightarrow> exn + json) \<Rightarrow> (json \<Rightarrow> pystr list \<Rightarrow> exn + json list)
     \<Rightarrow> message list \<Rightarrow> nat \<Rightarrow> world \<Rightarrow> (exn + json \<times> json) \<times> world" where
  "verification_attempts completionfn loads destructure vmessages attempts w =
     (if attempts < 3 then
        (let (completion, w1) = call_completion completionfn w vmessages None;
             response = first_text completion
         in case parse_response loads destructure response of
              Inr (thoughts, expected_output) \<Rightarrow> (Inr (thoughts, expected_output), w1)
            | Inl JSONDecodeError \<Rightarrow>
                verification_attempts completionfn loads destructure vmessages (attempts + 1) w1
            | Inl e \<Rightarrow> (Inl e, w1))
      else (Inr (JStr [], JStr []), w))"
  by pat_completeness auto
termination
  by (relation "measure (\<lambda>(completionfn, loads, destructure, vmessages, attempts, w). 3 - attempts)")
     auto

text \<open>
  What the tests on the status do: \<^verbatim>\<open>if vstatus in ("wrong"): return False\<close>, then
  \<^verbatim>\<open>if vstatus in ("done"): break\<close>, else the next pass of the loop. \<open>("wrong")\<close> is the
  string itself, so \<open>in\<close> is the substring test, and a \<open>TypeError\<close> when the status is not
  a string.
\<close>

datatype verdict = Wrong | Done | Continue

text \<open>
  One pass through the body of \<^verbatim>\<open>while (v_data := postfn("next-verification", ...))\<close>.
  \<open>make_verification_message\<close> and \<open>value_list_to_map\<close> are helpers outside these sources.
\<close>

definition verify_case ::
  "postfn \<Rightarrow> completionfn \<Rightarrow> (pystr \<Rightarrow> exn + json) \<Rightarrow> (json \<Rightarrow> pystr list \<Rightarrow> exn + json list)
     \<Rightarrow> (json \<Rightarrow> message) \<Rightarrow> (json \<Rightarrow> json) \<Rightarrow> message list \<Rightarrow> json \<Rightarrow> dict \<Rightarrow> world
     \<Rightarrow> (exn + verdict) \<times> world" where
  "verify_case postfn completionfn loads destructure make_verification_message value_list_to_map
       messages attempt_id v_data w =
     (case dict_getitem v_data (S ''next-verification'') of
        Inl e \<Rightarrow> (Inl e, w)
      | Inr verification \<Rightarrow>
     (case dict_getitem v_data (S ''output-type'') of
        Inl e \<Rightarrow> (Inl e, w)
      | Inr output_type \<Rightarrow>
     (if messages = [] then (Inl IndexError, w)
      else
       (let vmessages = [last messages]
              @ [make_verification_message (value_list_to_map verification)]
        in case verification_attempts completionfn loads destructure vmessages 0 w of
             (Inl e, w1) \<Rightarrow> (Inl e, w1)
           | (Inr (thoughts, expected_output), w1) \<Rightarrow>
               (let (reply, w2) = call_post postfn w1
                      (S ''attempt-verification'',
                       JDict [(S ''attempt-id'', attempt_id), (S ''prediction'', expected_output)])
                in case dict_getitem reply (S ''status'') of
                     Inl e \<Rightarrow> (Inl e, w2)
                   | Inr (JStr vstatus) \<Rightarrow>
                       if str_in vstatus (S ''wrong'') then (Inr Wrong, w2)
                       else if str_in vstatus (S ''done'') then (Inr Done, w2)
                       else (Inr Continue, w2)
                   | Inr _ \<Rightarrow> (Inl TypeError, w2))))))"

text \<open>
  \<open>verify\<close>. The loop ends when the oracle has no further case (a falsy reply, the empty
  dict), on the verdicts, or with an exception; it need not end at all, and then the
  value is \<open>None\<close>.
\<close>

partial_function (option) verify ::
  "postfn \<Rightarrow> completionfn \<Rightarrow> (pystr \<Rightarrow> exn + json) \<Rightarrow> (json \<Rightarrow> pystr list \<Rightarrow> exn + json list)
     \<Rightarrow> (json \<Rightarrow> message) \<Rightarrow> (json \<Rightarrow> json) \<Rightarrow> message list \<Rightarrow> json \<Rightarrow> world
     \<Rightarrow> ((exn + bool) \<times> world) option" where
  "verify postfn completionfn loads destructure make_verification_message value_list_to_map
       messages attempt_id w =
     (case call_post postfn w (S ''next-verification'', JDict [(S ''attempt-id'', attempt_id)]) of
        (v_data, w1) \<Rightarrow>
          if v_data = [] then Some (Inr True, w1)
          else
            (case verify_case postfn completionfn loads destructure make_verification_message
                    value_list_to_map messages attempt_id v_data w1 of
               (Inl e, w2) \<Rightarrow> Some (Inl e, w2)
             | (Inr Wrong, w2) \<Rightarrow> Some (Inr False, w2)
             | (Inr Done, w2) \<Rightarrow> Some (Inr True, w2)
             | (Inr Continue, w2) \<Rightarrow>
                 verify postfn completionfn loads destructure make_verification_message
                   value_list_to_map messages attempt_id w2))"

section \<open>The verification loops of the other providers\<close>

text \<open>
  \<open>sherlockbench_openai/verify.py\<close>. The completion is asked for with a response format and
  holds a list of choices, each with the content of its message (\<open>None\<close> when it has none);
  the request may raise. \<open>LengthFinishReasonError\<close> is caught and ends the loop; the answer
  is parsed once, without a retry. \<open>make_schema\<close> is a helper outside these sources.
\<close>

type_synonym openai_completionfn = "nat \<Rightarrow> message list \<Rightarrow> json \<Rightarrow> exn + pystr option list"

definition call_openai_completion ::
  "openai_completionfn \<Rightarrow> world \<Rightarrow> message list \<Rightarrow> json \<Rightarrow> (exn + pystr option list) \<times> world" where
  "call_openai_completion completionfn w msgs response_format =
     (completionfn (total_call_count w) msgs response_format,
      w\<lparr>total_call_count := Suc (total_call_count w)\<rparr>)"

definition openai_verify_case ::
  "postfn \<Rightarrow> openai_completionfn \<Rightarrow> (pystr \<Rightarrow> exn + json) \<Rightarrow> (json \<Rightarrow> pystr list \<Rightarrow> exn + json list)
     \<Rightarrow> (json \<Rightarrow> message) \<Rightarrow> (json \<Rightarrow> json) \<Rightarrow> message list \<Rightarrow> json \<Rightarrow> dict \<Rightarrow> world
     \<Rightarrow> (exn + verdict) \<times> world" where
  "openai_verify_case postfn completionfn loads destructure make_verification_message make_schema
       messages attempt_id v_data w =
     (case dict_getitem v_data (S ''next-verification'') of
        Inl e \<Rightarrow> (Inl e, w)
      | Inr verification \<Rightarrow>
     (case dict_getitem v_data (S ''output-type'') of
        Inl e \<Rightarrow> (Inl e, w)
      | Inr output_type \<Rightarrow>
       (let vmessages = messages @ [make_verification_message verification]
        in case call_openai_completion completionfn w vmessages (make_schema output_type) of
             (Inl LengthFinishReasonError, w1) \<Rightarrow> (Inr Done, w1)
           | (Inl e, w1) \<Rightarrow> (Inl e, w1)
           | (Inr choices, w1) \<Rightarrow>
               (case choices of
                  [] \<Rightarrow> (Inl IndexError, w1)
                | response # _ \<Rightarrow>
                    (case (case response of None \<Rightarrow> Inl TypeError | Some content \<Rightarrow> loads content) of
                       Inl e \<Rightarrow> (Inl e, w1)
                     | Inr parsed \<Rightarrow>
                         (case destructure parsed [S ''thoughts'', S ''expected_output''] of
                            Inl e \<Rightarrow> (Inl e, w1)
                          | Inr [thoughts, expected_output] \<Rightarrow>
                              (let (reply, w2) = call_post postfn w1
                                     (S ''attempt-verification'',
                                      JDict [(S ''attempt-id'', attempt_id),
                                             (S ''prediction'', expected_output)])
                               in case dict_getitem reply (S ''status'') of
                                    Inl e \<Rightarrow> (Inl e, w2)
                                  | Inr (JStr vstatus) \<Rightarrow>
                                      if str_in vstatus (S ''wrong'') then (Inr Wrong, w2)
                                      else if str_in vstatus (S ''done'') then (Inr Done, w2)
                                      else (Inr Continue, w2)
                                  | Inr _ \<Rightarrow> (Inl TypeError, w2))
                          | Inr _ \<Rightarrow> (Inl ValueError, w1)))))))"

partial_function (option) openai_verify ::
  "postfn \<Rightarrow> openai_completionfn \<Rightarrow> (pystr \<Rightarrow> exn + json) \<Rightarrow> (json \<Rightarrow> pystr list \<Rightarrow> exn + json list)
     \<Rightarrow> (json \<Rightarrow> message) \<Rightarrow> (json \<Rightarrow> json) \<Rightarrow> message list \<Rightarrow> json \<Rightarrow> world
     \<Rightarrow> ((exn + bool) \<times> world) option" where
  "openai_verify postfn completionfn loads destructure make_verification_message make_schema
       messages attempt_id w =
     (case call_post postfn w (S ''next-verification'', JDict [(S ''attempt-id'', attempt_id)]) of
        (v_data, w1) \<Rightarrow>
          if v_data = [] then Some (Inr True, w1)
          else
            (case openai_verify_case postfn completionfn loads destructure
                    make_verification_message make_schema messages attempt_id v_data w1 of
               (Inl e, w2) \<Rightarrow> Some (Inl e, w2)
             | (Inr Wrong, w2) \<Rightarrow> Some (Inr False, w2)
             | (Inr Done, w2) \<Rightarrow> Some (Inr True, w2)
             | (Inr Continue, w2) \<Rightarrow>
                 openai_verify postfn completionfn loads destructure make_verification_message
                   make_schema messages attempt_id w2))"

text \<open>
  \<open>sherlockbench_google/verify.py\<close>. The completion carries the parsed answer
  (\<open>completion.parsed\<close>, \<open>None\<close> when the provider could not parse one, and then reading
  \<open>.thoughts\<close> is an \<open>AttributeError\<close>). \<open>save_message\<close> is a helper outside these sources.
\<close>

type_synonym google_completionfn = "nat \<Rightarrow> message list \<Rightarrow> json \<Rightarrow> (json \<times> json) option"

definition call_google_completion ::
  "google_completionfn \<Rightarrow> world \<Rightarrow> message list \<Rightarrow> json \<Rightarrow> (json \<times> json) option \<times> world" where
  "call_google_completion completionfn w msgs schema =
     (completionfn (total_call_count w) msgs schema,
      w\<lparr>total_call_count := Suc (total_call_count w)\<rparr>)"

definition google_verify_case ::
  "postfn \<Rightarrow> google_completionfn \<Rightarrow> (pystr \<Rightarrow> message \<Rightarrow> message) \<Rightarrow> (json \<Rightarrow> message)
     \<Rightarrow> (json \<Rightarrow> json) \<Rightarrow> (json \<Rightarrow> json) \<Rightarrow> message list \<Rightarrow> json \<Rightarrow> dict \<Rightarrow> world
     \<Rightarrow> (exn + verdict) \<times> world" where
  "google_verify_case postfn completionfn save_message make_verification_message value_list_to_map
       make_schema messages attempt_id v_data w =
     (case dict_getitem v_data (S ''next-verification'') of
        Inl e \<Rightarrow> (Inl e, w)
      | Inr verification \<Rightarrow>
     (case dict_getitem v_data (S ''output-type'') of
        Inl e \<Rightarrow> (Inl e, w)
      | Inr output_type \<Rightarrow>
       (let vmessages = messages
              @ [save_message (S ''user'') (make_verification_message (value_list_to_map verification))];
            (parsed, w1) = call_google_completion completionfn w vmessages (make_schema output_type)
        in case parsed of
             None \<Rightarrow> (Inl AttributeError, w1)
           | Some (thoughts, expected_output) \<Rightarrow>
               (let (reply, w2) = call_post postfn w1
                      (S ''attempt-verification'',
                       JDict [(S ''attempt-id'', attempt_id), (S ''prediction'', expected_output)])
                in case dict_getitem reply (S ''status'') of
                     Inl e \<Rightarrow> (Inl e, w2)
                   | Inr (JStr vstatus) \<Rightarrow>
                       if str_in vstatus (S ''wrong'') then (Inr Wrong, w2)
                       else if str_in vstatus (S ''done'') then (Inr Done, w2)
                       else (Inr Continue, w2)
                   | Inr _ \<Rightarrow> (Inl TypeError, w2)))))"

partial_function (option) google_verify ::
  "postfn \<Rightarrow> google_completionfn \<Rightarrow> (pystr \<Rightarrow> message \<Rightarrow> message) \<Rightarrow> (json \<Rightarrow> message)
     \<Rightarrow> (json \<Rightarrow> json) \<Rightarrow> (json \<Rightarrow> json) \<Rightarrow> message list \<Rightarrow> json \<Rightarrow> world
     \<Rightarrow> ((exn + bool) \<times> world) option" where
  "google_verify postfn completionfn save_message make_verification_message value_list_to_map
       make_schema messages attempt_id w =
     (case call_post postfn w (S ''next-verification'', JDict [(S ''attempt-id'', attempt_id)]) of
        (v_data, w1) \<Rightarrow>
          if v_data = [] then Some (Inr True, w1)
          else
            (case google_verify_case postfn completionfn save_message make_verification_message
                    value_list_to_map make_schema messages attempt_id v_data w1 of
               (Inl e, w2) \<Rightarrow> Some (Inl e, w2)
             | (Inr Wrong, w2) \<Rightarrow> Some (Inr False, w2)
             | (Inr Done, w2) \<Rightarrow> Some (Inr True, w2)
             | (Inr Continue, w2) \<Rightarrow>
                 google_verify postfn completionfn save_message make_verification_message
                   value_list_to_map make_schema messages attempt_id w2))"

section \<open>Resuming an interrupted run: \<open>sherlockbench_client/run_utils.py\<close>\<close>

text \<open>
  An attempt is a dict that the oracle hands out; the client reads its identifier only.
  \<open>attempt_ident\<close> is the string under the key \<open>attempt-id\<close>, \<open>None\<close> when the dict has no such
  key; \<open>other_items\<close> are the remaining entries. The failure snapshot holds the attempt
  that was in flight (\<open>None\<close> when there was none) and the attempts of the run.
\<close>

record attempt =
  attempt_ident :: "pystr option"
  other_items :: dict

record failure_info =
  current_attempt :: "attempt option"
  all_attempts :: "attempt list"

datatype resume = Skip | Retry

text \<open>The truth value of \<open>failed_attempt\<close>: \<open>None\<close> and the empty dict are false.\<close>

definition attempt_truthy :: "attempt option \<Rightarrow> bool" where
  "attempt_truthy a =
     (case a of None \<Rightarrow> False | Some d \<Rightarrow> attempt_ident d \<noteq> None \<or> other_items d \<noteq> [])"

text \<open>
  The class of an exception. \<open>SystemExit\<close> and \<open>KeyboardInterrupt\<close> derive from
  \<open>BaseException\<close> only, so \<^verbatim>\<open>except Exception\<close> does not catch them; all the others
  derive from \<open>Exception\<close> (\<open>OtherError\<close> stands for any other subclass of \<open>Exception\<close>, such
  as the errors of the HTTP library).
\<close>

fun is_Exception :: "exn \<Rightarrow> bool" where
  "is_Exception (SystemExit code) = False"
| "is_Exception KeyboardInterrupt = False"
| "is_Exception ValueError = True"
| "is_Exception KeyError = True"
| "is_Exception TypeError = True"
| "is_Exception IndexError = True"
| "is_Exception AttributeError = True"
| "is_Exception JSONDecodeError = True"
| "is_Exception MsgLimitException = True"
| "is_Exception LengthFinishReasonError = True"
| "is_Exception (OtherError name) = True"

text \<open>
  \<open>reset_attempt\<close>. \<open>post\<close> is the request to the oracle, which may raise; \<open>str_lower\<close>
  stands for \<open>str(response).lower()\<close>. The body is under \<^verbatim>\<open>try: ... except Exception\<close>: an
  exception of class \<open>Exception\<close> gives \<open>False\<close>, any other one leaves the function.
\<close>

definition reset_request :: "pystr \<Rightarrow> request" where
  "reset_request attempt_id = (S ''developer/reset-attempt'', JDict [(S ''attempt-id'', JStr attempt_id)])"

definition reset_attempt :: "(request \<Rightarrow> exn + json) \<Rightarrow> (json \<Rightarrow> pystr) \<Rightarrow> pystr \<Rightarrow> exn + bool" where
  "reset_attempt post str_lower attempt_id =
     (case post (reset_request attempt_id) of
        Inl e \<Rightarrow> if is_Exception e then Inr False else Inl e
      | Inr response \<Rightarrow>
          if str_in (S ''success'') (str_lower response) then Inr True else Inr False)"

text \<open>
  The branch of \<open>start_run\<close> that resumes a run found interrupted, from the snapshot's
  \<open>failure_info\<close> and the completed attempts of the run: the attempts that are left, or the
  exception that ends the program (\<open>exit(1)\<close> is \<open>SystemExit 1\<close>). The second component lists
  the reset requests sent to the oracle.
  \<open>attempt_id\<close> is \<open>failed_attempt.get("attempt-id")\<close>; the reset is asked for under
  \<^verbatim>\<open>if args.resume == "retry" and attempt_id\<close>, inside \<^verbatim>\<open>if failed_attempt\<close>, and
  \<open>exit(1)\<close> follows when it returns \<open>False\<close>.
\<close>

definition start_run_resume ::
  "(request \<Rightarrow> exn + json) \<Rightarrow> (json \<Rightarrow> pystr) \<Rightarrow> resume \<Rightarrow> failure_info \<Rightarrow> pystr list
     \<Rightarrow> (exn + attempt list) \<times> request list" where
  "start_run_resume post str_lower resume fi completed_attempts =
     (let failed_attempt = current_attempt fi;
          attempt_id = (case failed_attempt of None \<Rightarrow> None | Some d \<Rightarrow> attempt_ident d);
          (reset, log) =
            (if attempt_truthy failed_attempt then
               (case attempt_id of
                  None \<Rightarrow> (Inr True, [])
                | Some i \<Rightarrow>
                    if resume = Retry \<and> i \<noteq> []
                    then (reset_attempt post str_lower i, [reset_request i])
                    else (Inr True, []))
             else (Inr True, []))
      in case reset of
           Inl e \<Rightarrow> (Inl e, log)
         | Inr reset_success \<Rightarrow>
             if \<not> reset_success then (Inl (SystemExit 1), log)
             else if all_attempts fi = [] then (Inl (SystemExit 1), log)
             else
               (let attempts = filter (\<lambda>attempt. case attempt_ident attempt of
                                           None \<Rightarrow> False
                                         | Some i \<Rightarrow> i \<notin> set completed_attempts) (all_attempts fi);
                    attempts = (if resume = Skip \<and> attempt_truthy failed_attempt
                                then filter (\<lambda>a. attempt_ident a \<noteq> attempt_id) attempts
                                else attempts)
                in (Inr attempts, log)))"

section \<open>Notions used to state the properties\<close>

text \<open>The keys that \<open>list_to_map\<close> hands out for \<open>n\<close> arguments.\<close>

definition arg_keys :: "nat \<Rightarrow> pystr list" where
  "arg_keys n = map (\<lambda>i. [97 + i]) [0..<n]"

text \<open>
  The positional argument vector of an invocation: its argument keys sorted, the values
  projected in that order; and the request that carries it to the oracle.
\<close>

definition positional_args :: "dict \<Rightarrow> json list" where
  "positional_args d = map (\<lambda>k. the (map_of d k)) (sort (map fst d))"

definition test_function_request :: "json \<Rightarrow> tool_use \<Rightarrow> request" where
  "test_function_request attempt_id call =
     (S ''test-function'',
      JDict [(S ''attempt-id'', attempt_id), (S ''args'', JList (positional_args (call_input call)))])"

text \<open>The tool invocations of the turn that the loop is about to make in a state.\<close>

definition turn_tool_calls ::
  "completionfn \<Rightarrow> tool list \<Rightarrow> message list \<times> nat \<times> world \<Rightarrow> tool_use list" where
  "turn_tool_calls completionfn tools st =
     (case st of (messages, tool_call_counter, w) \<Rightarrow>
        snd (snd (snd (parse_completion (completionfn (total_call_count w) messages (Some tools))))))"

text \<open>The state of the loop after a number of turns, each of which went on to a next turn.\<close>

fun after_turns ::
  "postfn \<Rightarrow> completionfn \<Rightarrow> (json \<Rightarrow> pystr) \<Rightarrow> json \<Rightarrow> tool list
     \<Rightarrow> nat \<Rightarrow> message list \<times> nat \<times> world \<Rightarrow> (message list \<times> nat \<times> world) option" where
  "after_turns postfn completionfn dumps attempt_id tools 0 st = Some st"
| "after_turns postfn completionfn dumps attempt_id tools (Suc k) st =
     (case investigate_turn postfn completionfn dumps attempt_id tools st of
        (Inr (Next messages' counter'), w') \<Rightarrow>
          after_turns postfn completionfn dumps attempt_id tools k (messages', counter', w')
      | _ \<Rightarrow> None)"


text \<open>The two requests of the verification phase.\<close>

definition next_verification_request :: "json \<Rightarrow> request" where
  "next_verification_request attempt_id =
     (S ''next-verification'', JDict [(S ''attempt-id'', attempt_id)])"

definition attempt_verification_request :: "json \<Rightarrow> json \<Rightarrow> request" where
  "attempt_verification_request attempt_id prediction =
     (S ''attempt-verification'', JDict [(S ''attempt-id'', attempt_id), (S ''prediction'', prediction)])"

text \<open>A response wrapped in a fenced block, with whitespace around the markers.\<close>

definition fenced :: "pystr \<Rightarrow> pystr \<Rightarrow> pystr \<Rightarrow> pystr \<Rightarrow> pystr \<Rightarrow> pystr" where
  "fenced ws1 ws2 ws3 ws4 r = ws1 @ S ''```json'' @ ws2 @ r @ ws3 @ S ''```'' @ ws4"

text \<open>Stripping on the left and on the right, the two halves of \<open>str.strip\<close>.\<close>

definition lstrip :: "pystr \<Rightarrow> pystr" where
  "lstrip s = dropWhile py_isspace s"

definition rstrip :: "pystr \<Rightarrow> pystr" where
  "rstrip s = rev (dropWhile py_isspace (rev s))"


section \<open>An example run\<close>

text \<open>
  A model that, asked for the first time, answers with a text and two invocations of the
  tool, and afterwards with a text only; an oracle that answers the first request with an
  output and every later one with a reply that has no output; and a stand-in for
  \<open>json.dumps\<close> on the two values that occur.
\<close>

definition example_calls :: "tool_use list" where
  "example_calls =
     [ToolUseBlock (S ''toolu_1'') (S ''mystery_function'') [(S ''b'', JInt 3), (S ''a'', JInt 5)],
      ToolUseBlock (S ''toolu_2'') (S ''mystery_function'') [(S ''a'', JInt 1), (S ''b'', JInt 2)]]"

definition example_completionfn :: completionfn where
  "example_completionfn n msgs tls =
     (if n = 0 then TextBlock (S ''try'') # map ToolUse example_calls
      else [TextBlock (S ''ready'')])"

definition example_postfn :: postfn where
  "example_postfn log req = (if log = [] then [(S ''output'', JInt 8)] else [(S ''error'', JNull)])"

definition example_dumps :: "json \<Rightarrow> pystr" where
  "example_dumps j = (case j of JStr s \<Rightarrow> S ''\"'' @ s @ S ''\"'' | _ \<Rightarrow> S ''8'')"

definition example_world :: world where
  "example_world = \<lparr>oracle_log = [], total_call_count = 0\<rparr>"

definition example_transcript :: "message list" where
  "example_transcript =
     [\<lparr>role = S ''assistant'',
       message_content = Blocks (Text (S ''try'') # map ToolCall example_calls)\<rparr>,
      \<lparr>role = S ''user'',
       message_content = Blocks [ToolResult (S ''toolu_1'') (S ''8''),
          ToolResult (S ''toolu_2'') (S ''\"'' @ S ''Error calling tool'' @ S ''\"'')]\<rparr>]"

definition example_world_1 :: world where
  "example_world_1 =
     \<lparr>oracle_log =
        [(S ''test-function'',
          JDict [(S ''attempt-id'', JStr (S ''att'')), (S ''args'', JList [JInt 5, JInt 3])]),
         (S ''test-function'',
          JDict [(S ''attempt-id'', JStr (S ''att'')), (S ''args'', JList [JInt 1, JInt 2])])],
       total_call_count = 1\<rparr>"

text \<open>A model that invokes the tool in every completion.\<close>

definition eager_completionfn :: completionfn where
  "eager_completionfn n msgs tls = map ToolUse example_calls"


subsection \<open>Examples for the verification loop\<close>

text \<open>
  The text of a well-formed answer, \<open>{"thoughts": "t", "expected_output": 1}\<close>, and
  stand-ins for the two helpers that are outside the sources, right on the texts that the
  examples hand to them: \<open>example_loads\<close> parses the answer above (with JSON whitespace
  around it or without) and rejects every other text, as \<open>json.loads\<close> rejects the other
  texts below (they start with a backquote or a letter); \<open>example_destructure\<close> looks each
  key up in the parsed object.
\<close>

definition example_answer :: pystr where
  "example_answer = S ''{\"thoughts\": \"t\", \"expected_output\": 1}''"

definition json_isspace :: "nat \<Rightarrow> bool" where
  "json_isspace c \<longleftrightarrow> c = 32 \<or> c = 9 \<or> c = 10 \<or> c = 13"

definition json_strip :: "pystr \<Rightarrow> pystr" where
  "json_strip s = rev (dropWhile json_isspace (rev (dropWhile json_isspace s)))"

definition example_loads :: "pystr \<Rightarrow> exn + json" where
  "example_loads s =
     (if json_strip s = example_answer
      then Inr (JDict [(S ''thoughts'', JStr (S ''t'')), (S ''expected_output'', JInt 1)])
      else Inl JSONDecodeError)"

definition example_destructure :: "json \<Rightarrow> pystr list \<Rightarrow> exn + json list" where
  "example_destructure data keys =
     (case data of JDict d \<Rightarrow> comprehension (dict_getitem d) keys | _ \<Rightarrow> Inl TypeError)"

text \<open>
  An oracle for the verification phase: it always has a further case, and it answers the
  \<open>k\<close>-th prediction with the \<open>k\<close>-th status of a given list (\<open>done\<close> after the list). A
  model that always gives the well-formed answer, one that gives a text that is not JSON,
  and one whose completion has no text block.
\<close>

definition verdict_oracle :: "pystr list \<Rightarrow> postfn" where
  "verdict_oracle statuses log req =
     (if fst req = S ''attempt-verification'' then
        (case drop (length (filter (\<lambda>r. fst r = S ''attempt-verification'') log)) statuses of
           [] \<Rightarrow> [(S ''status'', JStr (S ''done''))]
         | s # _ \<Rightarrow> [(S ''status'', JStr s)])
      else [(S ''next-verification'', JList [JInt 1]), (S ''output-type'', JStr (S ''integer''))])"

definition answering_completionfn :: completionfn where
  "answering_completionfn n msgs tls = [TextBlock example_answer]"

definition garbled_completionfn :: completionfn where
  "garbled_completionfn n msgs tls = [TextBlock (S ''oops'')]"

definition silent_completionfn :: completionfn where
  "silent_completionfn n msgs tls = []"

definition example_make_verification_message :: "json \<Rightarrow> message" where
  "example_make_verification_message v = \<lparr>role = S ''user'', message_content = Plain (S ''predict'')\<rparr>"

definition example_value_list_to_map :: "json \<Rightarrow> json" where
  "example_value_list_to_map v = v"

subsection \<open>Examples for the resume\<close>




definition failing_post :: "request \<Rightarrow> exn + json" where
  "failing_post req = Inl (OtherError (S ''HTTPError''))"



definition example_str_lower :: "json \<Rightarrow> pystr" where
  "example_str_lower response =
     (case response of JDict [(k, JStr v)] \<Rightarrow> k @ S '': '' @ v | _ \<Rightarrow> [])"

section \<open>Properties of the tool arguments\<close>

lemma comprehension_Inr:
  "(\<And>x. x \<in> set xs \<Longrightarrow> f x = Inr (g x)) \<Longrightarrow> comprehension f xs = Inr (map g xs)"
  by (induction xs) simp_all

lemma comprehension_Inl:
  "\<exists>x \<in> set xs. f x = Inl e \<Longrightarrow> \<forall>x \<in> set xs. f x = Inl e \<or> (\<exists>y. f x = Inr y)
     \<Longrightarrow> comprehension f xs = Inl e"
proof (induction xs)
  case Nil
  then show ?case by simp
next
  case (Cons a xs)
  show ?case
  proof (cases "f a")
    case (Inl e')
    with Cons.prems(2) show ?thesis by auto
  next
    case (Inr y)
    with Cons.prems have "\<exists>x \<in> set xs. f x = Inl e" by auto
    moreover from Cons.prems have "\<forall>x \<in> set xs. f x = Inl e \<or> (\<exists>y. f x = Inr y)" by simp
    ultimately have "comprehension f xs = Inl e" by (rule Cons.IH)
    with Inr show ?thesis by simp
  qed
qed

lemma arg_keys_length: "length (arg_keys n) = n"
  by (simp add: arg_keys_def)

lemma arg_keys_distinct: "distinct (arg_keys n)"
  by (simp add: arg_keys_def distinct_map inj_on_def)

lemma arg_keys_sorted: "sorted (arg_keys n)"
proof -
  have "sorted_wrt (\<lambda>x y. [97 + x] \<le> [97 + y]) [0..<n]"
    by (rule sorted_wrt_mono_rel[of _ "(\<le>)"]) auto
  then show ?thesis by (simp add: arg_keys_def sorted_wrt_map)
qed

lemma list_to_map_ok:
  assumes "length xs \<le> 1114015"
  shows "list_to_map xs = Inr (zip (arg_keys (length xs)) (map (\<lambda>t. [(S ''type'', t)]) xs))"
proof -
  have "comprehension (\<lambda>i. py_chr (97 + i)) [0..<length xs]
          = Inr (map (\<lambda>i. [97 + i]) [0..<length xs])"
    using assms by (intro comprehension_Inr) (auto simp: py_chr_def)
  then show ?thesis
    by (simp add: list_to_map_def arg_keys_def zip_map2 case_prod_unfold)
qed

lemma list_to_map_ValueError:
  assumes "1114015 < length xs"
  shows "list_to_map xs = Inl ValueError"
proof -
  have "comprehension (\<lambda>i. py_chr (97 + i)) [0..<length xs] = Inl ValueError"
    using assms by (intro comprehension_Inl) (auto simp: py_chr_def intro!: bexI[of _ 1114015])
  then show ?thesis by (simp add: list_to_map_def)
qed

text \<open>
  The lookup in \<open>normalize_args\<close> never raises: every key it looks up comes from the dict.
  The result is the projection of the values along the sorted keys.
\<close>

lemma normalize_args_total:
  "normalize_args d = Inr (map (\<lambda>k. the (map_of d k)) (sort (map fst d)))"
  unfolding normalize_args_def
proof (rule comprehension_Inr)
  fix k assume "k \<in> set (sort (map fst d))"
  then have "k \<in> fst ` set d" by simp
  then obtain v where "map_of d k = Some v"
    by (metis map_of_eq_None_iff not_Some_eq)
  then show "dict_getitem d k = Inr (the (map_of d k))"
    by (simp add: dict_getitem_def)
qed

lemma normalize_args_perm:
  assumes "distinct ks" "sorted ks" "length vs = length ks" "mset d = mset (zip ks vs)"
  shows "normalize_args d = Inr vs"
proof -
  have "mset (map fst d) = mset (map fst (zip ks vs))"
    using assms(4) by (metis mset_map)
  then have keys: "mset (map fst d) = mset ks"
    using assms(3) by simp
  have srt: "sort (map fst d) = ks"
    using keys assms(2) by (simp add: properties_for_sort)
  have dd: "distinct (map fst d)"
    using keys assms(1) by (metis mset_eq_imp_distinct_iff)
  have dz: "distinct (map fst (zip ks vs))"
    using assms(1,3) by simp
  have "set d = set (zip ks vs)"
    using assms(4) by (metis mset_eq_setD)
  then have m: "map_of d = map_of (zip ks vs)"
    using dd dz by (simp add: map_of_inject_set)
  have "map (\<lambda>k. the (map_of (zip ks vs) k)) ks = vs"
  proof (rule nth_equalityI)
    show "length (map (\<lambda>k. the (map_of (zip ks vs) k)) ks) = length vs"
      using assms(3) by simp
  next
    fix i assume "i < length (map (\<lambda>k. the (map_of (zip ks vs) k)) ks)"
    then have i: "i < length ks" by simp
    then have "map_of (zip ks vs) (ks ! i) = Some (vs ! i)"
      using assms(1,3) by (simp add: map_of_zip_nth)
    with i show "map (\<lambda>k. the (map_of (zip ks vs) k)) ks ! i = vs ! i"
      by simp
  qed
  with srt m show ?thesis
    by (simp add: normalize_args_total)
qed

text \<open>
  C1 (as amended). For an argument specification of at most 1114015 entries, \<open>list_to_map\<close>
  returns one entry per argument type, in order; the keys are the one-character strings
  \<open>chr(97)\<close>, \<open>chr(98)\<close>, ... (\<open>'a'\<close>, \<open>'b'\<close>, \<open>'c'\<close>, ...), pairwise distinct, and the
  entry of each key is \<open>{"type": item}\<close>. Whatever values \<open>vs\<close> are stored under these keys
  and in whatever order the entries of the dict were inserted, \<open>normalize_args\<close> returns
  \<open>vs\<close> in the declared order.
\<close>

theorem list_to_map_normalize_args_roundtrip:
  assumes "length arg_spec \<le> 1114015"
  shows "\<exists>m. list_to_map arg_spec = Inr m
           \<and> map fst m = arg_keys (length arg_spec)
           \<and> distinct (map fst m)
           \<and> map snd m = map (\<lambda>item. [(S ''type'', item)]) arg_spec
           \<and> (\<forall>vs d. length vs = length arg_spec \<longrightarrow> mset d = mset (zip (map fst m) vs)
                  \<longrightarrow> normalize_args d = Inr vs)"
proof -
  let ?n = "length arg_spec"
  let ?m = "zip (arg_keys ?n) (map (\<lambda>t. [(S ''type'', t)]) arg_spec)"
  have m: "list_to_map arg_spec = Inr ?m"
    using assms by (rule list_to_map_ok)
  have k: "map fst ?m = arg_keys ?n"
    by (simp add: arg_keys_length)
  have v: "map snd ?m = map (\<lambda>t. [(S ''type'', t)]) arg_spec"
    by (simp add: arg_keys_length)
  have r: "normalize_args d = Inr vs"
    if "length vs = ?n" "mset d = mset (zip (map fst ?m) vs)" for vs :: "'b list" and d
    using that arg_keys_distinct[of ?n] arg_keys_sorted[of ?n]
    by (intro normalize_args_perm[of "arg_keys ?n"]) (simp_all only: k arg_keys_length)
  from m k v r arg_keys_distinct[of ?n] show ?thesis
    by (intro exI[of _ ?m]) (simp only: simp_thms, blast)
qed

text \<open>
  The example of the specification: for the argument specification \<open>[int, int]\<close> the keys
  are \<open>a\<close> and \<open>b\<close>, and the call \<open>{"b": 3, "a": 5}\<close> is sent on as \<open>[5, 3]\<close>.
\<close>

theorem list_to_map_normalize_args_roundtrip_witness:
  "length [S ''int'', S ''int''] \<le> 1114015
   \<and> list_to_map [S ''int'', S ''int'']
       = Inr [(S ''a'', [(S ''type'', S ''int'')]), (S ''b'', [(S ''type'', S ''int'')])]
   \<and> normalize_args [(S ''b'', JInt 3), (S ''a'', JInt 5)] = Inr [JInt 5, JInt 3]"
proof -
  have l: "length [S ''int'', S ''int''] \<le> 1114015" by simp
  have e: "list_to_map [S ''int'', S ''int'']
       = Inr [(S ''a'', [(S ''type'', S ''int'')]), (S ''b'', [(S ''type'', S ''int'')])]"
    by (simp add: list_to_map_def py_chr_def S_def upt_rec)
  from list_to_map_normalize_args_roundtrip[OF l]
  obtain m where m: "list_to_map [S ''int'', S ''int''] = Inr m"
    and r: "\<forall>vs d. length vs = length [S ''int'', S ''int'']
              \<longrightarrow> mset d = mset (zip (map fst m) vs) \<longrightarrow> normalize_args d = Inr (vs :: json list)"
    by blast
  from m e have "m = [(S ''a'', [(S ''type'', S ''int'')]), (S ''b'', [(S ''type'', S ''int'')])]"
    by simp
  then have k: "map fst m = [S ''a'', S ''b'']" by simp
  have p: "mset [(S ''b'', JInt 3), (S ''a'', JInt 5)]
             = mset (zip (map fst m) [JInt 5, JInt 3])"
    by (simp add: k add_mset_commute)
  have "normalize_args [(S ''b'', JInt 3), (S ''a'', JInt 5)] = Inr [JInt 5, JInt 3]"
    by (rule r[rule_format, OF _ p]) simp
  with l e show ?thesis by blast
qed

text \<open>
  C1 as stated, for every length: an argument specification of 1114016 entries makes the
  key comprehension reach \<open>chr(1114112)\<close>, outside the range of \<open>chr\<close>, and
  \<open>list_to_map\<close> raises \<open>ValueError\<close> instead of assigning keys.
\<close>

theorem list_to_map_roundtrip_counterexample:
  "list_to_map (replicate 1114016 (S ''int'')) = Inl ValueError"
  by (rule list_to_map_ValueError) simp

section \<open>Properties of the investigation loop\<close>

lemma handle_tool_call_eq:
  "handle_tool_call postfn dumps attempt_id call w =
     (Inr (ToolResult (call_id call)
            (dumps (dict_get (postfn (oracle_log w) (test_function_request attempt_id call))
                      (S ''output'') (JStr (S ''Error calling tool''))))),
      w\<lparr>oracle_log := oracle_log w @ [test_function_request attempt_id call]\<rparr>)"
  by (simp add: handle_tool_call_def normalize_args_total call_post_def Let_def
      test_function_request_def positional_args_def)

lemma handle_tool_calls_eq:
  "\<exists>contents w'.
     handle_tool_calls postfn dumps attempt_id calls (results, counter, w) =
       (Inr (results @ map (\<lambda>(c, x). ToolResult (call_id c) x) (zip calls contents),
             counter + length calls), w')
     \<and> length contents = length calls
     \<and> oracle_log w' = oracle_log w @ map (test_function_request attempt_id) calls
     \<and> total_call_count w' = total_call_count w"
proof (induction calls arbitrary: results counter w)
  case Nil
  then show ?case by simp
next
  case (Cons call calls)
  let ?x = "dumps (dict_get (postfn (oracle_log w) (test_function_request attempt_id call))
                      (S ''output'') (JStr (S ''Error calling tool'')))"
  let ?w = "w\<lparr>oracle_log := oracle_log w @ [test_function_request attempt_id call]\<rparr>"
  from Cons.IH[of "results @ [ToolResult (call_id call) ?x]" "counter + 1" ?w]
  obtain contents w' where
    h: "handle_tool_calls postfn dumps attempt_id calls
          (results @ [ToolResult (call_id call) ?x], counter + 1, ?w) =
        (Inr ((results @ [ToolResult (call_id call) ?x])
                @ map (\<lambda>(c, x). ToolResult (call_id c) x) (zip calls contents),
              counter + 1 + length calls), w')"
    and l: "length contents = length calls"
    and o: "oracle_log w' = oracle_log ?w @ map (test_function_request attempt_id) calls"
    and t: "total_call_count w' = total_call_count ?w"
    by blast
  show ?case
    using h l o t
    by (intro exI[of _ "?x # contents"] exI[of _ w']) (simp add: handle_tool_call_eq)
qed


lemma investigate_turn_next:
  assumes "parse_completion (completionfn (total_call_count w) messages (Some tools))
             = (thinking, redacted_thinking, message, tool_calls)"
    and "tool_calls \<noteq> []"
  shows "\<exists>messages' counter' w'.
     investigate_turn postfn completionfn dumps attempt_id tools (messages, tool_call_counter, w)
       = (Inr (Next messages' counter'), w')
     \<and> total_call_count w' = Suc (total_call_count w)"
proof -
  let ?w1 = "w\<lparr>total_call_count := Suc (total_call_count w)\<rparr>"
  from handle_tool_calls_eq[of postfn dumps attempt_id tool_calls "[]" tool_call_counter ?w1]
  obtain results w' where
    "handle_tool_calls postfn dumps attempt_id tool_calls ([], tool_call_counter, ?w1)
       = (Inr (results, tool_call_counter + length tool_calls), w')"
    and "total_call_count w' = total_call_count ?w1"
    by auto
  with assms show ?thesis
    by (simp add: investigate_turn_def call_completion_def)
qed

lemma investigate_turn_no_tools:
  assumes "parse_completion (completionfn (total_call_count w) messages (Some tools))
             = (thinking, redacted_thinking, message, [])"
  shows "investigate_turn postfn completionfn dumps attempt_id tools (messages, tool_call_counter, w) =
       (Inr (Return (messages
                    @ [\<lparr>role = S ''assistant'',
                        message_content = Blocks (assistant_blocks thinking redacted_thinking message)\<rparr>])
                  tool_call_counter), w\<lparr>total_call_count := Suc (total_call_count w)\<rparr>)"
  using assms by (simp add: investigate_turn_def call_completion_def)



lemma S_eq_iff [simp]: "S a = S b \<longleftrightarrow> a = b"
  by (simp add: S_def inj_map_eq_map inj_def)

lemma S_Nil_iff [simp]: "S a = [] \<longleftrightarrow> a = []"
  by (simp add: S_def)

lemma parse_example_0:
  "parse_completion (example_completionfn 0 msgs tls) = (None, None, Some (S ''try''), example_calls)"
  by (simp add: parse_completion_def example_completionfn_def first_text_def example_calls_def
      List.map_filter_simps)


text \<open>
  C2. A turn whose completion carries the tool invocations \<open>T1..Tk\<close> (\<open>k > 0\<close>) sends
  exactly \<open>k\<close> requests to the oracle, all to \<open>test-function\<close>, one per invocation and in the
  order of the invocations, each with the attempt and the positional argument vector of
  its invocation (the values projected along the sorted keys); it requests one completion;
  it appends the assistant message and one user message that holds exactly one
  \<open>tool_result\<close> block per invocation, in order, each with the identifier of its
  invocation; and the tool-call counter grows by \<open>k\<close>.
\<close>

theorem investigate_turn_tool_calls:
  assumes "parse_completion (completionfn (total_call_count w) messages (Some tools))
             = (thinking, redacted_thinking, message, tool_calls)"
    and "tool_calls \<noteq> []"
  shows "\<exists>contents w'.
     investigate_turn postfn completionfn dumps attempt_id tools (messages, tool_call_counter, w) =
       (Inr (Next (messages
                    @ [\<lparr>role = S ''assistant'',
                        message_content = Blocks (assistant_blocks thinking redacted_thinking message
                                                   @ map ToolCall tool_calls)\<rparr>,
                       \<lparr>role = S ''user'',
                        message_content = Blocks (map (\<lambda>(c, x). ToolResult (call_id c) x)
                                                   (zip tool_calls contents))\<rparr>])
                  (tool_call_counter + length tool_calls)), w')
     \<and> length contents = length tool_calls
     \<and> oracle_log w' = oracle_log w @ map (test_function_request attempt_id) tool_calls
     \<and> total_call_count w' = Suc (total_call_count w)"
proof -
  let ?w1 = "w\<lparr>total_call_count := Suc (total_call_count w)\<rparr>"
  from handle_tool_calls_eq[of postfn dumps attempt_id tool_calls "[]" tool_call_counter ?w1]
  obtain contents w' where
    h: "handle_tool_calls postfn dumps attempt_id tool_calls ([], tool_call_counter, ?w1) =
          (Inr ([] @ map (\<lambda>(c, x). ToolResult (call_id c) x) (zip tool_calls contents),
                tool_call_counter + length tool_calls), w')"
    and l: "length contents = length tool_calls"
    and o: "oracle_log w' = oracle_log ?w1 @ map (test_function_request attempt_id) tool_calls"
    and t: "total_call_count w' = total_call_count ?w1"
    by blast
  show ?thesis
    using assms h l o t
    by (intro exI[of _ contents] exI[of _ w'])
       (simp add: investigate_turn_def call_completion_def)
qed

theorem investigate_turn_tool_calls_witness:
  "parse_completion (example_completionfn (total_call_count example_world) [] (Some []))
     = (None, None, Some (S ''try''), example_calls)
   \<and> example_calls \<noteq> []
   \<and> investigate_turn example_postfn example_completionfn example_dumps (JStr (S ''att'')) []
        ([], 0, example_world)
      = (Inr (Next [\<lparr>role = S ''assistant'',
                     message_content = Blocks (Text (S ''try'') # map ToolCall example_calls)\<rparr>,
                    \<lparr>role = S ''user'',
                     message_content = Blocks [ToolResult (S ''toolu_1'') (S ''8''),
                        ToolResult (S ''toolu_2'') (S ''\"'' @ S ''Error calling tool'' @ S ''\"'')]\<rparr>] 2),
         \<lparr>oracle_log =
            [(S ''test-function'',
              JDict [(S ''attempt-id'', JStr (S ''att'')), (S ''args'', JList [JInt 5, JInt 3])]),
             (S ''test-function'',
              JDict [(S ''attempt-id'', JStr (S ''att'')), (S ''args'', JList [JInt 1, JInt 2])])],
           total_call_count = 1\<rparr>)"
proof -
  have p: "parse_completion (example_completionfn (total_call_count example_world) [] (Some []))
     = (None, None, Some (S ''try''), example_calls)"
    by (simp add: example_world_def parse_example_0)
  have n: "example_calls \<noteq> []"
    by (simp add: example_calls_def)
  have a1: "positional_args [(S ''b'', JInt 3), (S ''a'', JInt 5)] = [JInt 5, JInt 3]"
    by (simp add: positional_args_def S_def)
  have a2: "positional_args [(S ''a'', JInt 1), (S ''b'', JInt 2)] = [JInt 1, JInt 2]"
    by (simp add: positional_args_def S_def)
  from investigate_turn_tool_calls[where completionfn=example_completionfn and w=example_world
      and messages="[]" and tools="[]" and postfn=example_postfn and dumps=example_dumps
      and attempt_id="JStr (S ''att'')" and tool_call_counter=0, OF p n]
  obtain contents w' where
    t: "investigate_turn example_postfn example_completionfn example_dumps (JStr (S ''att'')) []
          ([], 0, example_world) =
       (Inr (Next ([]
                    @ [\<lparr>role = S ''assistant'',
                        message_content = Blocks (assistant_blocks None None (Some (S ''try''))
                                                   @ map ToolCall example_calls)\<rparr>,
                       \<lparr>role = S ''user'',
                        message_content = Blocks (map (\<lambda>(c, x). ToolResult (call_id c) x)
                                                   (zip example_calls contents))\<rparr>])
                  (0 + length example_calls)), w')"
    and o: "oracle_log w' = oracle_log example_world @ map (test_function_request (JStr (S ''att''))) example_calls"
    and c: "total_call_count w' = Suc (total_call_count example_world)"
    by blast
  have e: "investigate_turn example_postfn example_completionfn example_dumps (JStr (S ''att'')) []
        ([], 0, example_world)
      = (Inr (Next [\<lparr>role = S ''assistant'',
                     message_content = Blocks (Text (S ''try'') # map ToolCall example_calls)\<rparr>,
                    \<lparr>role = S ''user'',
                     message_content = Blocks [ToolResult (S ''toolu_1'') (S ''8''),
                        ToolResult (S ''toolu_2'') (S ''\"'' @ S ''Error calling tool'' @ S ''\"'')]\<rparr>] 2),
         \<lparr>oracle_log =
            [(S ''test-function'',
              JDict [(S ''attempt-id'', JStr (S ''att'')), (S ''args'', JList [JInt 5, JInt 3])]),
             (S ''test-function'',
              JDict [(S ''attempt-id'', JStr (S ''att'')), (S ''args'', JList [JInt 1, JInt 2])])],
           total_call_count = 1\<rparr>)"
    by (simp add: investigate_turn_def call_completion_def example_world_def parse_example_0
        handle_tool_call_eq example_calls_def test_function_request_def a1 a2
        example_postfn_def dict_get_def example_dumps_def assistant_blocks_def)
  from p n e show ?thesis by blast
qed

lemma after_turns_Suc:
  assumes "after_turns postfn completionfn dumps attempt_id tools (Suc k) st = Some st'"
  shows "turn_tool_calls completionfn tools st \<noteq> []
       \<and> (\<exists>messages' counter' w'.
             investigate_turn postfn completionfn dumps attempt_id tools st
               = (Inr (Next messages' counter'), w')
           \<and> after_turns postfn completionfn dumps attempt_id tools k (messages', counter', w')
               = Some st')"
proof -
  obtain messages counter w where st: "st = (messages, counter, w)"
    by (cases st) auto
  obtain th rd msg tcs where
    p: "parse_completion (completionfn (total_call_count w) messages (Some tools)) = (th, rd, msg, tcs)"
    by (metis prod_cases4)
  have "tcs \<noteq> []"
  proof
    assume "tcs = []"
    with p assms show False
      by (simp add: st investigate_turn_no_tools)
  qed
  with p have "turn_tool_calls completionfn tools st \<noteq> []"
    by (simp add: st turn_tool_calls_def)
  moreover from assms
  have "\<exists>messages' counter' w'.
             investigate_turn postfn completionfn dumps attempt_id tools st
               = (Inr (Next messages' counter'), w')
           \<and> after_turns postfn completionfn dumps attempt_id tools k (messages', counter', w')
               = Some st'"
    by (auto split: prod.splits sum.splits turn.splits)
  ultimately show ?thesis by simp
qed

text \<open>
  The turns counted by \<open>after_turns\<close> are turns with tool invocations: a turn without any
  makes \<open>investigate\<close> return.
\<close>

lemma after_turns_tool_calls:
  "after_turns postfn completionfn dumps attempt_id tools j st = Some st' \<Longrightarrow> i < j \<Longrightarrow>
   \<exists>st_i. after_turns postfn completionfn dumps attempt_id tools i st = Some st_i
        \<and> turn_tool_calls completionfn tools st_i \<noteq> []"
proof (induction j arbitrary: st i)
  case 0
  then show ?case by simp
next
  case (Suc j)
  from after_turns_Suc[OF Suc.prems(1)] obtain ms c w1 where
    t: "turn_tool_calls completionfn tools st \<noteq> []"
    and n: "investigate_turn postfn completionfn dumps attempt_id tools st = (Inr (Next ms c), w1)"
    and a: "after_turns postfn completionfn dumps attempt_id tools j (ms, c, w1) = Some st'"
    by blast
  show ?case
  proof (cases i)
    case 0
    with t show ?thesis by simp
  next
    case (Suc i')
    with Suc.prems(2) have "i' < j" by simp
    from Suc.IH[OF a this] n Suc show ?thesis by simp
  qed
qed


text \<open>
  C4. If each of the first \<open>N\<close> turns takes place and its completion carries at least one
  tool invocation, the loop with room for \<open>N\<close> turns raises \<open>MsgLimitException\<close>: it returns
  no transcript, and it has requested exactly \<open>N\<close> completions.
\<close>

theorem investigate_loop_msg_limit:
  assumes "\<forall>i<N. \<exists>st. after_turns postfn completionfn dumps attempt_id tools i (messages, tool_call_counter, w) = Some st
                     \<and> turn_tool_calls completionfn tools st \<noteq> []"
  shows "\<exists>w'. investigate_loop postfn completionfn dumps attempt_id tools N (messages, tool_call_counter, w)
                 = (Inl MsgLimitException, w')
              \<and> total_call_count w' = total_call_count w + N"
  using assms
proof (induction N arbitrary: messages tool_call_counter w)
  case 0
  then show ?case by simp
next
  case (Suc N)
  from Suc.prems[rule_format, of 0]
  have t: "turn_tool_calls completionfn tools (messages, tool_call_counter, w) \<noteq> []"
    by simp
  obtain th rd msg tcs where p: "parse_completion (completionfn (total_call_count w) messages (Some tools))
             = (th, rd, msg, tcs)"
    by (metis prod_cases4)
  with t have ne: "tcs \<noteq> []"
    by (simp add: turn_tool_calls_def)
  from investigate_turn_next[where completionfn=completionfn and w=w and messages=messages
        and tools=tools and postfn=postfn and dumps=dumps and attempt_id=attempt_id
        and tool_call_counter=tool_call_counter, OF p ne]
  obtain ms c w1 where
    it: "investigate_turn postfn completionfn dumps attempt_id tools (messages, tool_call_counter, w)
          = (Inr (Next ms c), w1)"
    and cc: "total_call_count w1 = Suc (total_call_count w)"
    by blast
  have "\<forall>i<N. \<exists>st. after_turns postfn completionfn dumps attempt_id tools i (ms, c, w1) = Some st
                     \<and> turn_tool_calls completionfn tools st \<noteq> []"
  proof (intro allI impI)
    fix i assume "i < N"
    then have "Suc i < Suc N" by simp
    from Suc.prems[rule_format, OF this] it
    show "\<exists>st. after_turns postfn completionfn dumps attempt_id tools i (ms, c, w1) = Some st
                     \<and> turn_tool_calls completionfn tools st \<noteq> []"
      by simp
  qed
  from Suc.IH[OF this] obtain w' where
    "investigate_loop postfn completionfn dumps attempt_id tools N (ms, c, w1) = (Inl MsgLimitException, w')"
    "total_call_count w' = total_call_count w1 + N"
    by blast
  with it cc show ?case by simp
qed

text \<open>
  C8. When the oracle's reply to the \<open>test-function\<close> request has no key \<open>output\<close>,
  \<open>handle_tool_call\<close> raises nothing: it returns the \<open>tool_result\<close> block of the invocation,
  whose content is the serialised string \<open>Error calling tool\<close>.
\<close>

theorem handle_tool_call_missing_output:
  assumes "S ''output'' \<notin> fst ` set (postfn (oracle_log w) (test_function_request attempt_id call))"
  shows "handle_tool_call postfn dumps attempt_id call w =
     (Inr (ToolResult (call_id call) (dumps (JStr (S ''Error calling tool'')))),
      w\<lparr>oracle_log := oracle_log w @ [test_function_request attempt_id call]\<rparr>)"
proof -
  from assms have "map_of (postfn (oracle_log w) (test_function_request attempt_id call)) (S ''output'') = None"
    by (simp add: map_of_eq_None_iff)
  then show ?thesis
    by (simp add: handle_tool_call_eq dict_get_def)
qed

lemma investigate_eq_loop:
  "list_to_map arg_spec = Inr mapped_args \<Longrightarrow>
   investigate msg_limit postfn completionfn dumps messages attempt_id arg_spec w =
     investigate_loop postfn completionfn dumps attempt_id
       [\<lparr>tool_name = S ''mystery_function'',
         tool_description = S ''Use this tool to test the mystery function.'',
         tool_properties = mapped_args,
         tool_required = map fst mapped_args\<rparr>]
       (nat msg_limit) (messages, 0, w)"
  by (simp add: investigate_def)




lemma parse_eager:
  "parse_completion (eager_completionfn n msgs tls) = (None, None, None, example_calls)"
  by (simp add: parse_completion_def eager_completionfn_def first_text_def example_calls_def
      List.map_filter_simps)

lemma eager_after_turns:
  "\<exists>st'. after_turns postfn eager_completionfn dumps attempt_id tools i st = Some st'"
proof (induction i arbitrary: st)
  case 0
  show ?case by (rule exI[of _ st]) simp
next
  case (Suc i)
  obtain messages counter w where st: "st = (messages, counter, w)"
    by (cases st) auto
  have ne: "example_calls \<noteq> []" by (simp add: example_calls_def)
  from investigate_turn_next[where completionfn=eager_completionfn and w=w and messages=messages
        and tools=tools and postfn=postfn and dumps=dumps and attempt_id=attempt_id
        and tool_call_counter=counter, OF parse_eager ne]
  obtain ms c w1 where
    "investigate_turn postfn eager_completionfn dumps attempt_id tools (messages, counter, w)
          = (Inr (Next ms c), w1)"
    by blast
  with Suc.IH[of "(ms, c, w1)"] show ?case
    by (simp add: st)
qed

theorem investigate_loop_msg_limit_witness:
  "turn_tool_calls eager_completionfn [] ([], 0, example_world) \<noteq> []
   \<and> (\<exists>w'. investigate_loop example_postfn eager_completionfn example_dumps (JStr (S ''att'')) [] 3
              ([], 0, example_world) = (Inl MsgLimitException, w')
          \<and> total_call_count w' = 3)"
proof -
  have t: "turn_tool_calls eager_completionfn [] st \<noteq> []" for st
    by (cases st) (simp add: turn_tool_calls_def parse_eager example_calls_def)
  have "\<forall>i<3. \<exists>st. after_turns example_postfn eager_completionfn example_dumps (JStr (S ''att'')) [] i
              ([], 0, example_world) = Some st
            \<and> turn_tool_calls eager_completionfn [] st \<noteq> []"
    using eager_after_turns t by blast
  from investigate_loop_msg_limit[OF this]
  have "\<exists>w'. investigate_loop example_postfn eager_completionfn example_dumps (JStr (S ''att'')) [] 3
              ([], 0, example_world) = (Inl MsgLimitException, w')
          \<and> total_call_count w' = total_call_count example_world + 3" .
  then show ?thesis
    using t by (simp add: example_world_def)
qed

theorem handle_tool_call_missing_output_witness:
  "S ''output'' \<notin> fst ` set (example_postfn (oracle_log example_world_1)
       (test_function_request (JStr (S ''att'')) (ToolUseBlock (S ''toolu_3'') (S ''mystery_function'') [])))
   \<and> handle_tool_call example_postfn example_dumps (JStr (S ''att''))
        (ToolUseBlock (S ''toolu_3'') (S ''mystery_function'') []) example_world_1
      = (Inr (ToolResult (S ''toolu_3'') (example_dumps (JStr (S ''Error calling tool'')))),
         example_world_1\<lparr>oracle_log := oracle_log example_world_1
            @ [(S ''test-function'', JDict [(S ''attempt-id'', JStr (S ''att'')), (S ''args'', JList [])])]\<rparr>)"
proof -
  have h: "S ''output'' \<notin> fst ` set (example_postfn (oracle_log example_world_1)
       (test_function_request (JStr (S ''att'')) (ToolUseBlock (S ''toolu_3'') (S ''mystery_function'') [])))"
    by (simp add: example_postfn_def example_world_1_def)
  from handle_tool_call_missing_output[where postfn=example_postfn and w=example_world_1
      and attempt_id="JStr (S ''att'')" and dumps=example_dumps
      and call="ToolUseBlock (S ''toolu_3'') (S ''mystery_function'') []", OF h] h
  show ?thesis
    by (simp add: test_function_request_def positional_args_def)
qed

section \<open>Properties of the verification loop\<close>

lemma py_strip_eq: "py_strip s = rstrip (lstrip s)"
  by (simp add: py_strip_def lstrip_def rstrip_def)

lemma lstrip_ws: "\<forall>c \<in> set ws. py_isspace c \<Longrightarrow> lstrip (ws @ s) = lstrip s"
  by (simp add: lstrip_def dropWhile_append2)

lemma rstrip_ws: "\<forall>c \<in> set ws. py_isspace c \<Longrightarrow> rstrip (s @ ws) = rstrip s"
  unfolding rstrip_def rev_append by (subst dropWhile_append2) auto

lemma lstrip_keep: "\<not> py_isspace c \<Longrightarrow> lstrip (c # s) = c # s"
  by (simp add: lstrip_def)

lemma rstrip_keep: "\<not> py_isspace c \<Longrightarrow> rstrip (s @ [c]) = s @ [c]"
  by (simp add: rstrip_def)

lemma lstrip_idem: "lstrip (lstrip s) = lstrip s"
  by (simp add: lstrip_def)

lemma lstrip_all_ws: "\<forall>c \<in> set s. py_isspace c \<Longrightarrow> lstrip s = []"
  by (simp add: lstrip_def)

lemma lstrip_append: "\<exists>c \<in> set s. \<not> py_isspace c \<Longrightarrow> lstrip (s @ t) = lstrip s @ t"
  by (auto simp: lstrip_def dropWhile_append1)

lemma backtick_not_space: "\<not> py_isspace 96"
  by (simp add: py_isspace_def)

lemma fence_open: "S ''```json'' = [96, 96, 96, 106, 115, 111, 110]"
  by (simp add: S_def)

lemma fence_close: "S ''```'' = [96, 96, 96]"
  by (simp add: S_def)

lemma clean_response_fenced:
  assumes w1: "\<forall>c \<in> set ws1. py_isspace c" and w2: "\<forall>c \<in> set ws2. py_isspace c"
    and w3: "\<forall>c \<in> set ws3. py_isspace c" and w4: "\<forall>c \<in> set ws4. py_isspace c"
  shows "clean_response (Some (fenced ws1 ws2 ws3 ws4 r)) = Some (py_strip r)"
proof -
  let ?F1 = "[96, 96, 96, 106, 115, 111, 110] :: pystr"
  let ?F2 = "[96, 96, 96] :: pystr"
  let ?T = "ws2 @ r @ ws3 @ ?F2"
  let ?s = "fenced ws1 ws2 ws3 ws4 r"
  have s: "?s = ws1 @ ?F1 @ ?T @ ws4"
    by (simp add: fenced_def fence_open fence_close)
  have "lstrip ?s = ?F1 @ ?T @ ws4"
    unfolding s using w1 by (simp add: lstrip_ws lstrip_keep backtick_not_space)
  moreover have "rstrip (?F1 @ ?T @ ws4) = ?F1 @ ?T"
  proof -
    have "rstrip (?F1 @ ?T @ ws4) = rstrip ((?F1 @ ?T) @ ws4)" by simp
    also have "\<dots> = rstrip (?F1 @ ?T)" using w4 by (rule rstrip_ws)
    also have "\<dots> = rstrip ((?F1 @ ws2 @ r @ ws3 @ [96, 96]) @ [96])" by simp
    also have "\<dots> = (?F1 @ ws2 @ r @ ws3 @ [96, 96]) @ [96]"
      using backtick_not_space by (rule rstrip_keep)
    finally show ?thesis by simp
  qed
  ultimately have strip_s: "py_strip ?s = ?F1 @ ?T"
    by (simp add: py_strip_eq)
  have ne: "?s \<noteq> []" by (simp add: s)
  define z' where "z' = (if \<forall>c \<in> set (r @ ws3). py_isspace c then [] else lstrip (r @ ws3))"
  have lz: "lstrip ?T = z' @ ?F2"
  proof (cases "\<forall>c \<in> set (r @ ws3). py_isspace c")
    case True
    have "lstrip ?T = lstrip ((ws2 @ r @ ws3) @ ?F2)" by simp
    also have "\<dots> = lstrip ?F2" using True w2 by (intro lstrip_ws) auto
    also have "\<dots> = ?F2" using backtick_not_space by (rule lstrip_keep)
    moreover have "z' = []" unfolding z'_def using True by (rule if_P)
    ultimately show ?thesis by simp
  next
    case False
    have "lstrip ?T = lstrip ((r @ ws3) @ ?F2)" using w2 by (simp add: lstrip_ws)
    also have "\<dots> = lstrip (r @ ws3) @ ?F2" using False by (intro lstrip_append) auto
    moreover have "z' = lstrip (r @ ws3)" unfolding z'_def using False by (rule if_not_P)
    ultimately show ?thesis by simp
  qed
  have rz: "rstrip (z' @ ?F2) = z' @ ?F2"
  proof -
    have "rstrip (z' @ ?F2) = rstrip ((z' @ [96, 96]) @ [96])" by simp
    also have "\<dots> = (z' @ [96, 96]) @ [96]" using backtick_not_space by (rule rstrip_keep)
    finally show ?thesis by simp
  qed
  have c1: "py_strip ?T = z' @ ?F2"
    by (simp add: py_strip_eq lz rz)
  have c1_strip: "py_strip (z' @ ?F2) = z' @ ?F2"
  proof -
    have "lstrip (z' @ ?F2) = lstrip (lstrip ?T)" by (simp only: lz)
    also have "\<dots> = lstrip ?T" by (rule lstrip_idem)
    also have "\<dots> = z' @ ?F2" by (rule lz)
    finally show ?thesis by (simp add: py_strip_eq rz)
  qed
  have z: "py_strip z' = py_strip r"
  proof (cases "\<forall>c \<in> set (r @ ws3). py_isspace c")
    case True
    then have "lstrip r = []" by (intro lstrip_all_ws) auto
    then have "py_strip r = []" by (simp add: py_strip_eq rstrip_def)
    moreover have "z' = []" unfolding z'_def using True by (rule if_P)
    ultimately show ?thesis by (simp add: py_strip_def)
  next
    case False
    with w3 have r: "\<exists>c \<in> set r. \<not> py_isspace c" by auto
    have "z' = lstrip (r @ ws3)" unfolding z'_def using False by (rule if_not_P)
    then have "py_strip z' = rstrip (lstrip (r @ ws3))"
      by (simp add: py_strip_eq lstrip_idem)
    also have "\<dots> = rstrip (lstrip r @ ws3)" using r by (simp add: lstrip_append)
    also have "\<dots> = rstrip (lstrip r)" using w3 by (rule rstrip_ws)
    finally show ?thesis by (simp add: py_strip_eq)
  qed
  have step1: "(if ?s \<noteq> [] \<and> prefix (S ''```json'') (py_strip ?s)
                then Some (py_strip (drop 7 (py_strip ?s))) else Some ?s) = Some (z' @ ?F2)"
    using ne by (simp add: strip_s fence_open c1)
  have step2: "(if z' @ ?F2 \<noteq> [] \<and> suffix (S ''```'') (py_strip (z' @ ?F2))
                then Some (py_strip (take (length (py_strip (z' @ ?F2)) - 3) (py_strip (z' @ ?F2))))
                else Some (z' @ ?F2)) = Some (py_strip r)"
    by (simp add: c1_strip fence_close suffix_def z)
  show ?thesis
    unfolding clean_response_def Let_def option.case step1 step2 ..
qed

lemma clean_response_unfenced:
  assumes "\<not> prefix (S ''```json'') (py_strip r)" and "\<not> suffix (S ''```'') (py_strip r)"
  shows "clean_response (Some r) = Some r"
  using assms by (simp add: clean_response_def)


lemma example_answer_codes:
  "example_answer = [123, 34, 116, 104, 111, 117, 103, 104, 116, 115, 34, 58, 32, 34, 116, 34, 44,
     32, 34, 101, 120, 112, 101, 99, 116, 101, 100, 95, 111, 117, 116, 112, 117, 116, 34, 58, 32,
     49, 125]"
  by (simp add: example_answer_def S_def)

lemma example_loads_answer:
  "example_loads example_answer
     = Inr (JDict [(S ''thoughts'', JStr (S ''t'')), (S ''expected_output'', JInt 1)])"
  by (simp add: example_loads_def json_strip_def json_isspace_def example_answer_codes)

lemma example_parse_answer:
  "parse_response example_loads example_destructure (Some example_answer)
     = Inr (JStr (S ''t''), JInt 1)"
proof -
  have "py_strip example_answer = example_answer"
    by (simp add: py_strip_def py_isspace_def example_answer_codes)
  then have "clean_response (Some example_answer) = Some example_answer"
    by (intro clean_response_unfenced)
       (simp_all add: example_answer_codes fence_open fence_close suffix_to_prefix)
  then show ?thesis
    by (simp add: parse_response_def example_loads_answer example_destructure_def dict_getitem_def)
qed

text \<open>
  C7 (as amended). Let \<open>r\<close> be a response text that is not itself fenced: stripped of
  surrounding whitespace it neither starts with \<open>```json\<close> nor ends with \<open>```\<close>. Wrapped
  between a leading \<open>```json\<close> and a trailing \<open>```\<close>, with any whitespace before, between and
  after, the text handed to \<open>json.loads\<close> is \<open>r.strip()\<close>; unwrapped it is \<open>r\<close>. So both
  parse to the same result whenever \<open>json.loads\<close> gives the same on \<open>r.strip()\<close> and on \<open>r\<close>,
  which it does when \<open>r\<close> has no surrounding whitespace, or only JSON whitespace.
\<close>

theorem fenced_response_parses_like_unfenced:
  assumes "\<forall>c \<in> set ws1. py_isspace c" and "\<forall>c \<in> set ws2. py_isspace c"
    and "\<forall>c \<in> set ws3. py_isspace c" and "\<forall>c \<in> set ws4. py_isspace c"
    and "\<not> prefix (S ''```json'') (py_strip r)" and "\<not> suffix (S ''```'') (py_strip r)"
    and "loads (py_strip r) = loads r"
  shows "clean_response (Some (fenced ws1 ws2 ws3 ws4 r)) = Some (py_strip r)
       \<and> clean_response (Some r) = Some r
       \<and> parse_response loads destructure (Some (fenced ws1 ws2 ws3 ws4 r))
           = parse_response loads destructure (Some r)"
proof -
  have f: "clean_response (Some (fenced ws1 ws2 ws3 ws4 r)) = Some (py_strip r)"
    using assms(1-4) by (rule clean_response_fenced)
  have u: "clean_response (Some r) = Some r"
    using assms(5,6) by (rule clean_response_unfenced)
  from f u assms(7) show ?thesis
    by (simp add: parse_response_def)
qed

theorem fenced_response_parses_like_unfenced_witness:
  "parse_response example_loads example_destructure
      (Some (fenced [] [10] [10] [] ([32] @ example_answer @ [10])))
     = Inr (JStr (S ''t''), JInt 1)
   \<and> parse_response example_loads example_destructure (Some ([32] @ example_answer @ [10]))
     = Inr (JStr (S ''t''), JInt 1)"
proof -
  let ?r = "[32] @ example_answer @ [10]"
  have s: "py_strip ?r = example_answer"
    by (simp add: py_strip_def py_isspace_def example_answer_codes)
  have w: "\<forall>c \<in> set [10::nat]. py_isspace c" "\<forall>c \<in> set ([]::nat list). py_isspace c"
    by (simp_all add: py_isspace_def)
  have p: "\<not> prefix (S ''```json'') (py_strip ?r)"
    unfolding s by (simp add: example_answer_codes fence_open)
  have q: "\<not> suffix (S ''```'') (py_strip ?r)"
    unfolding s by (simp add: example_answer_codes fence_close suffix_to_prefix)
  have l: "example_loads (py_strip ?r) = example_loads ?r"
    unfolding s by (simp add: example_loads_def json_strip_def json_isspace_def example_answer_codes)
  from fenced_response_parses_like_unfenced[where loads=example_loads
      and destructure=example_destructure, OF w(2) w(1) w(1) w(2) p q l]
  have e: "parse_response example_loads example_destructure (Some (fenced [] [10] [10] [] ?r))
           = parse_response example_loads example_destructure (Some ?r)"
    and c: "clean_response (Some ?r) = Some ?r"
    by blast+
  have "example_loads ?r = example_loads example_answer"
    using l unfolding s by simp
  then have "parse_response example_loads example_destructure (Some ?r) = Inr (JStr (S ''t''), JInt 1)"
    unfolding parse_response_def c option.case
    by (simp add: example_loads_answer example_destructure_def dict_getitem_def)
  with e show ?thesis by simp
qed

text \<open>
  C7 as stated fails in two ways. A fenced block whose leading marker is a bare \<open>```\<close>
  keeps the marker: the text handed to \<open>json.loads\<close> starts with the backquotes and is
  rejected, while the same answer unwrapped is parsed. And an answer that is already
  fenced is unwrapped when it comes alone, but wrapped once more it reaches \<open>json.loads\<close>
  with its own fence.
\<close>

theorem fenced_response_counterexample:
  "clean_response (Some (S ''```'' @ [10] @ example_answer @ [10] @ S ''```''))
     = Some (S ''```'' @ [10] @ example_answer)
   \<and> parse_response example_loads example_destructure
        (Some (S ''```'' @ [10] @ example_answer @ [10] @ S ''```'')) = Inl JSONDecodeError
   \<and> parse_response example_loads example_destructure (Some example_answer)
        = Inr (JStr (S ''t''), JInt 1)
   \<and> parse_response example_loads example_destructure
        (Some (fenced [] [10] [10] [] (S ''```json'' @ example_answer @ S ''```'')))
        = Inl JSONDecodeError
   \<and> parse_response example_loads example_destructure
        (Some (S ''```json'' @ example_answer @ S ''```'')) = Inr (JStr (S ''t''), JInt 1)"
proof -
  let ?b = "S ''```'' @ [10] @ example_answer @ [10] @ S ''```''"
  let ?n = "S ''```json'' @ example_answer @ S ''```''"
  have b: "clean_response (Some ?b) = Some (S ''```'' @ [10] @ example_answer)"
    by (simp add: clean_response_def py_strip_def py_isspace_def example_answer_codes
        fence_open fence_close suffix_to_prefix)
  have pb: "parse_response example_loads example_destructure (Some ?b) = Inl JSONDecodeError"
    unfolding parse_response_def b option.case
    by (simp add: example_loads_def json_strip_def json_isspace_def
        example_answer_codes fence_close)
  have sn: "py_strip ?n = ?n"
    by (simp add: py_strip_def py_isspace_def example_answer_codes fence_open fence_close)
  have w: "\<forall>c \<in> set [10::nat]. py_isspace c" "\<forall>c \<in> set ([]::nat list). py_isspace c"
    by (simp_all add: py_isspace_def)
  have "clean_response (Some (fenced [] [10] [10] [] ?n)) = Some (py_strip ?n)"
    using w(2) w(1) w(1) w(2) by (rule clean_response_fenced)
  then have "clean_response (Some (fenced [] [10] [10] [] ?n)) = Some ?n"
    unfolding sn .
  then have pf: "parse_response example_loads example_destructure (Some (fenced [] [10] [10] [] ?n))
        = Inl JSONDecodeError"
    unfolding parse_response_def
    by (simp add: example_loads_def json_strip_def json_isspace_def
        example_answer_codes fence_open fence_close)
  have n: "clean_response (Some ?n) = Some example_answer"
    by (simp add: clean_response_def py_strip_def py_isspace_def example_answer_codes
        fence_open fence_close suffix_to_prefix)
  have pn: "parse_response example_loads example_destructure (Some ?n) = Inr (JStr (S ''t''), JInt 1)"
    unfolding parse_response_def n option.case
    by (simp add: example_loads_answer example_destructure_def dict_getitem_def)
  from b pb example_parse_answer pf pn show ?thesis by blast
qed

lemma str_in_iff_sublist: "str_in s t \<longleftrightarrow> sublist s t"
  by (induction t) (simp_all add: sublist_Cons_right)

lemma str_in_wrong:
  "str_in s (S ''wrong'') \<longleftrightarrow>
     s \<in> {[], S ''w'', S ''r'', S ''o'', S ''n'', S ''g'', S ''wr'', S ''ro'', S ''on'', S ''ng'',
          S ''wro'', S ''ron'', S ''ong'', S ''wron'', S ''rong'', S ''wrong''}"
  by (auto simp: S_def prefix_Cons)

lemma str_in_done:
  "str_in s (S ''done'') \<longleftrightarrow>
     s \<in> {[], S ''d'', S ''o'', S ''n'', S ''e'', S ''do'', S ''on'', S ''ne'',
          S ''don'', S ''one'', S ''done''}"
  by (auto simp: S_def prefix_Cons)

declare verification_attempts.simps [simp del]

lemma verification_attempts_retry:
  assumes "attempts < 3"
    and "parse_response loads destructure
           (first_text (completionfn (total_call_count w) vmessages None)) = Inl JSONDecodeError"
  shows "verification_attempts completionfn loads destructure vmessages attempts w =
         verification_attempts completionfn loads destructure vmessages (Suc attempts)
           (w\<lparr>total_call_count := Suc (total_call_count w)\<rparr>)"
  using assms by (subst verification_attempts.simps) (simp add: call_completion_def)

lemma verification_attempts_success:
  assumes "attempts < 3"
    and "parse_response loads destructure
           (first_text (completionfn (total_call_count w) vmessages None))
         = Inr (thoughts, expected_output)"
  shows "verification_attempts completionfn loads destructure vmessages attempts w =
         (Inr (thoughts, expected_output), w\<lparr>total_call_count := Suc (total_call_count w)\<rparr>)"
  using assms by (subst verification_attempts.simps) (simp add: call_completion_def)

lemma verification_attempts_raise:
  assumes "attempts < 3"
    and "parse_response loads destructure
           (first_text (completionfn (total_call_count w) vmessages None)) = Inl e"
    and "e \<noteq> JSONDecodeError"
  shows "verification_attempts completionfn loads destructure vmessages attempts w =
         (Inl e, w\<lparr>total_call_count := Suc (total_call_count w)\<rparr>)"
  using assms by (subst verification_attempts.simps) (simp add: call_completion_def split: exn.splits)

lemma verification_attempts_done:
  "\<not> attempts < 3 \<Longrightarrow>
   verification_attempts completionfn loads destructure vmessages attempts w
     = (Inr (JStr [], JStr []), w)"
  by (subst verification_attempts.simps) simp

lemma verification_attempts_bound_aux:
  "3 - attempts = k \<Longrightarrow>
   total_call_count (snd (verification_attempts completionfn loads destructure vmessages attempts w))
     \<le> total_call_count w + k"
proof (induction k arbitrary: attempts w)
  case 0
  then have "\<not> attempts < 3" by simp
  then show ?case by (simp add: verification_attempts_done)
next
  case (Suc k)
  then have lt: "attempts < 3" by simp
  let ?w1 = "w\<lparr>total_call_count := Suc (total_call_count w)\<rparr>"
  let ?p = "parse_response loads destructure
              (first_text (completionfn (total_call_count w) vmessages None))"
  show ?case
  proof (cases ?p)
    case (Inr a)
    then obtain t e where "?p = Inr (t, e)" by (cases a) simp
    with lt show ?thesis by (simp add: verification_attempts_success)
  next
    case (Inl e)
    show ?thesis
    proof (cases "e = JSONDecodeError")
      case False
      with Inl lt show ?thesis by (simp add: verification_attempts_raise)
    next
      case True
      from Suc.prems have "3 - Suc attempts = k" by simp
      from Suc.IH[OF this, of ?w1] Inl True lt show ?thesis
        by (simp add: verification_attempts_retry)
    qed
  qed
qed

lemma verification_attempts_bound:
  "total_call_count (snd (verification_attempts completionfn loads destructure vmessages 0 w))
     \<le> total_call_count w + 3"
  by (rule verification_attempts_bound_aux) simp

lemma verification_attempts_exhausted:
  assumes "\<forall>i<3. parse_response loads destructure
              (first_text (completionfn (total_call_count w + i) vmessages None)) = Inl JSONDecodeError"
  shows "verification_attempts completionfn loads destructure vmessages 0 w =
         (Inr (JStr [], JStr []), w\<lparr>total_call_count := total_call_count w + 3\<rparr>)"
proof -
  from assms have p0: "parse_response loads destructure
              (first_text (completionfn (total_call_count w) vmessages None)) = Inl JSONDecodeError"
    and p1: "parse_response loads destructure
              (first_text (completionfn (Suc (total_call_count w)) vmessages None)) = Inl JSONDecodeError"
    and p2: "parse_response loads destructure
              (first_text (completionfn (Suc (Suc (total_call_count w))) vmessages None)) = Inl JSONDecodeError"
    using assms[rule_format, of 0] assms[rule_format, of 1] assms[rule_format, of 2]
    by simp_all
  let ?w1 = "w\<lparr>total_call_count := Suc (total_call_count w)\<rparr>"
  let ?w2 = "w\<lparr>total_call_count := Suc (Suc (total_call_count w))\<rparr>"
  let ?w3 = "w\<lparr>total_call_count := Suc (Suc (Suc (total_call_count w)))\<rparr>"
  have "verification_attempts completionfn loads destructure vmessages 0 w
        = verification_attempts completionfn loads destructure vmessages (Suc 0) ?w1"
    using p0 by (intro verification_attempts_retry) simp_all
  also have "\<dots> = verification_attempts completionfn loads destructure vmessages (Suc (Suc 0)) ?w2"
    using verification_attempts_retry[of "Suc 0" loads destructure completionfn ?w1 vmessages] p1
    by simp
  also have "\<dots> = verification_attempts completionfn loads destructure vmessages (Suc (Suc (Suc 0))) ?w3"
    using verification_attempts_retry[of "Suc (Suc 0)" loads destructure completionfn ?w2 vmessages] p2
    by simp
  also have "\<dots> = (Inr (JStr [], JStr []), ?w3)"
    by (subst verification_attempts.simps) simp
  finally show ?thesis by (simp add: eval_nat_numeral)
qed

lemma verify_case_status:
  assumes "dict_getitem v_data (S ''next-verification'') = Inr verification"
    and "dict_getitem v_data (S ''output-type'') = Inr output_type"
    and "messages \<noteq> []"
    and "verification_attempts completionfn loads destructure
           [last messages, make_verification_message (value_list_to_map verification)] 0 w
         = (Inr (thoughts, expected_output), w1)"
    and "dict_getitem (postfn (oracle_log w1) (attempt_verification_request attempt_id expected_output))
           (S ''status'') = Inr (JStr vstatus)"
  shows "verify_case postfn completionfn loads destructure make_verification_message
           value_list_to_map messages attempt_id v_data w
         = (Inr (if str_in vstatus (S ''wrong'') then Wrong
                 else if str_in vstatus (S ''done'') then Done else Continue),
            w1\<lparr>oracle_log := oracle_log w1 @ [attempt_verification_request attempt_id expected_output]\<rparr>)"
  using assms
  by (simp add: verify_case_def call_post_def attempt_verification_request_def)

lemma verify_case_parse_raises:
  assumes "dict_getitem v_data (S ''next-verification'') = Inr verification"
    and "dict_getitem v_data (S ''output-type'') = Inr output_type"
    and "messages \<noteq> []"
    and "verification_attempts completionfn loads destructure
           [last messages, make_verification_message (value_list_to_map verification)] 0 w
         = (Inl e, w1)"
  shows "verify_case postfn completionfn loads destructure make_verification_message
           value_list_to_map messages attempt_id v_data w = (Inl e, w1)"
  using assms by (simp add: verify_case_def)

text \<open>
  C10 (as amended). Take a pass of the loop that gets as far as the verdict: the oracle
  has a case, the answer is parsed (or the retries are used up), and the reply to the
  prediction carries the status string \<open>s\<close>. Then the pass takes the failure branch, and
  \<open>verify\<close> returns \<open>False\<close> at once, exactly when \<open>s\<close> is a contiguous substring of
  \<open>wrong\<close>; otherwise it takes the \<open>done\<close> branch, and \<open>verify\<close> returns \<open>True\<close>, exactly when
  \<open>s\<close> is a contiguous substring of \<open>done\<close>; otherwise the loop goes on with the next case.
\<close>

theorem verify_status_by_containment:
  assumes "postfn (oracle_log w) (next_verification_request attempt_id) = v_data"
    and "v_data \<noteq> []"
    and "dict_getitem v_data (S ''next-verification'') = Inr verification"
    and "dict_getitem v_data (S ''output-type'') = Inr output_type"
    and "messages \<noteq> []"
    and "verification_attempts completionfn loads destructure
           [last messages, make_verification_message (value_list_to_map verification)] 0
           (w\<lparr>oracle_log := oracle_log w @ [next_verification_request attempt_id]\<rparr>)
         = (Inr (thoughts, expected_output), w1)"
    and "dict_getitem (postfn (oracle_log w1) (attempt_verification_request attempt_id expected_output))
           (S ''status'') = Inr (JStr s)"
    and "w2 = w1\<lparr>oracle_log := oracle_log w1 @ [attempt_verification_request attempt_id expected_output]\<rparr>"
  shows "verify_case postfn completionfn loads destructure make_verification_message
           value_list_to_map messages attempt_id v_data
           (w\<lparr>oracle_log := oracle_log w @ [next_verification_request attempt_id]\<rparr>)
         = (Inr (if sublist s (S ''wrong'') then Wrong
                 else if sublist s (S ''done'') then Done else Continue), w2)
       \<and> verify postfn completionfn loads destructure make_verification_message
           value_list_to_map messages attempt_id w
         = (if sublist s (S ''wrong'') then Some (Inr False, w2)
            else if sublist s (S ''done'') then Some (Inr True, w2)
            else verify postfn completionfn loads destructure make_verification_message
                   value_list_to_map messages attempt_id w2)"
proof -
  let ?w0 = "w\<lparr>oracle_log := oracle_log w @ [next_verification_request attempt_id]\<rparr>"
  have "verify_case postfn completionfn loads destructure make_verification_message
           value_list_to_map messages attempt_id v_data ?w0
         = (Inr (if str_in s (S ''wrong'') then Wrong
                 else if str_in s (S ''done'') then Done else Continue),
            w1\<lparr>oracle_log := oracle_log w1 @ [attempt_verification_request attempt_id expected_output]\<rparr>)"
    using assms(3,4,5,6,7) by (rule verify_case_status)
  then have c: "verify_case postfn completionfn loads destructure make_verification_message
           value_list_to_map messages attempt_id v_data ?w0
         = (Inr (if sublist s (S ''wrong'') then Wrong
                 else if sublist s (S ''done'') then Done else Continue), w2)"
    using assms(8) by (simp add: str_in_iff_sublist)
  have "verify postfn completionfn loads destructure make_verification_message
           value_list_to_map messages attempt_id w
         = (if sublist s (S ''wrong'') then Some (Inr False, w2)
            else if sublist s (S ''done'') then Some (Inr True, w2)
            else verify postfn completionfn loads destructure make_verification_message
                   value_list_to_map messages attempt_id w2)"
    using assms(1,2)
    by (subst verify.simps)
       (simp add: call_post_def next_verification_request_def[symmetric] c)
  with c show ?thesis by simp
qed


lemma first_text_answering:
  "first_text (answering_completionfn n msgs tls) = Some example_answer"
  by (simp add: first_text_def answering_completionfn_def List.map_filter_simps)

lemma answering_pass:
  assumes "messages \<noteq> []"
    and "(case drop (length (filter (\<lambda>r. fst r = S ''attempt-verification'') (oracle_log w))) statuses of
            [] \<Rightarrow> S ''done'' | s # _ \<Rightarrow> s) = vstatus"
    and "w2 = w\<lparr>oracle_log := oracle_log w
                   @ [next_verification_request attempt_id,
                      attempt_verification_request attempt_id (JInt 1)],
                 total_call_count := Suc (total_call_count w)\<rparr>"
  shows "verify (verdict_oracle statuses) answering_completionfn example_loads example_destructure
           example_make_verification_message example_value_list_to_map messages attempt_id w
         = (if str_in vstatus (S ''wrong'') then Some (Inr False, w2)
            else if str_in vstatus (S ''done'') then Some (Inr True, w2)
            else verify (verdict_oracle statuses) answering_completionfn example_loads
                   example_destructure example_make_verification_message
                   example_value_list_to_map messages attempt_id w2)"
proof -
  let ?w0 = "w\<lparr>oracle_log := oracle_log w @ [next_verification_request attempt_id]\<rparr>"
  let ?w1 = "?w0\<lparr>total_call_count := Suc (total_call_count ?w0)\<rparr>"
  let ?v = "[(S ''next-verification'', JList [JInt 1]), (S ''output-type'', JStr (S ''integer''))]"
  have v: "verdict_oracle statuses (oracle_log w) (next_verification_request attempt_id) = ?v"
    by (simp add: verdict_oracle_def next_verification_request_def)
  have g1: "dict_getitem ?v (S ''next-verification'') = Inr (JList [JInt 1])"
    and g2: "dict_getitem ?v (S ''output-type'') = Inr (JStr (S ''integer''))"
    by (simp_all add: dict_getitem_def)
  have va: "verification_attempts answering_completionfn example_loads example_destructure
           [last messages, example_make_verification_message (example_value_list_to_map (JList [JInt 1]))]
           0 ?w0 = (Inr (JStr (S ''t''), JInt 1), ?w1)"
    by (rule verification_attempts_success)
       (simp_all add: first_text_answering example_parse_answer)
  have st: "dict_getitem (verdict_oracle statuses (oracle_log ?w1)
                 (attempt_verification_request attempt_id (JInt 1))) (S ''status'')
            = Inr (JStr vstatus)"
    using assms(2)
    by (auto simp: verdict_oracle_def attempt_verification_request_def next_verification_request_def
        dict_getitem_def split: list.splits)
  have c: "verify_case (verdict_oracle statuses) answering_completionfn example_loads
             example_destructure example_make_verification_message example_value_list_to_map
             messages attempt_id ?v ?w0
         = (Inr (if str_in vstatus (S ''wrong'') then Wrong
                 else if str_in vstatus (S ''done'') then Done else Continue),
            ?w1\<lparr>oracle_log := oracle_log ?w1 @ [attempt_verification_request attempt_id (JInt 1)]\<rparr>)"
    using g1 g2 assms(1) va st by (rule verify_case_status)
  have w2: "?w1\<lparr>oracle_log := oracle_log ?w1 @ [attempt_verification_request attempt_id (JInt 1)]\<rparr> = w2"
    by (simp add: assms(3))
  show ?thesis
    by (subst verify.simps)
       (simp add: call_post_def next_verification_request_def[symmetric] v c[unfolded w2])
qed

text \<open>
  The example of the specification: the verdicts \<open>correct\<close>, \<open>correct\<close>, \<open>done\<close> make \<open>verify\<close>
  return \<open>True\<close> after three cases, three completions and three predictions.
\<close>

lemma verify_correct_correct_done:
  "verify (verdict_oracle [S ''correct'', S ''correct'', S ''done'']) answering_completionfn
     example_loads example_destructure example_make_verification_message
     example_value_list_to_map example_transcript (JStr (S ''att'')) example_world
   = Some (Inr True,
       \<lparr>oracle_log =
          [next_verification_request (JStr (S ''att'')),
           attempt_verification_request (JStr (S ''att'')) (JInt 1),
           next_verification_request (JStr (S ''att'')),
           attempt_verification_request (JStr (S ''att'')) (JInt 1),
           next_verification_request (JStr (S ''att'')),
           attempt_verification_request (JStr (S ''att'')) (JInt 1)],
        total_call_count = 3\<rparr>)"
proof -
  let ?nv = "next_verification_request (JStr (S ''att''))"
  let ?av = "attempt_verification_request (JStr (S ''att'')) (JInt 1)"
  let ?verify = "verify (verdict_oracle [S ''correct'', S ''correct'', S ''done'']) answering_completionfn
     example_loads example_destructure example_make_verification_message
     example_value_list_to_map example_transcript (JStr (S ''att''))"
  have m: "example_transcript \<noteq> []" by (simp add: example_transcript_def)
  have c: "\<not> str_in (S ''correct'') (S ''wrong'')" "\<not> str_in (S ''correct'') (S ''done'')"
    "\<not> str_in (S ''done'') (S ''wrong'')" "str_in (S ''done'') (S ''done'')"
    by (simp_all add: S_def)
  have f: "fst ?nv \<noteq> S ''attempt-verification''" "fst ?av = S ''attempt-verification''"
    by (simp_all add: next_verification_request_def attempt_verification_request_def)
  have "?verify example_world = ?verify \<lparr>oracle_log = [?nv, ?av], total_call_count = 1\<rparr>"
    by (subst answering_pass[OF m refl refl]) (simp add: example_world_def c)
  also have "\<dots> = ?verify \<lparr>oracle_log = [?nv, ?av, ?nv, ?av], total_call_count = 2\<rparr>"
    by (subst answering_pass[OF m refl refl]) (simp add: c f numeral_2_eq_2 numeral_3_eq_3)
  also have "\<dots> = Some (Inr True, \<lparr>oracle_log = [?nv, ?av, ?nv, ?av, ?nv, ?av], total_call_count = 3\<rparr>)"
    by (subst answering_pass[OF m refl refl]) (simp add: c f numeral_2_eq_2 numeral_3_eq_3)
  finally show ?thesis .
qed

theorem verify_status_by_containment_witness:
  "sublist (S ''ro'') (S ''wrong'')
   \<and> verify_case (verdict_oracle [S ''ro'']) answering_completionfn example_loads
        example_destructure example_make_verification_message example_value_list_to_map
        example_transcript (JStr (S ''att''))
        [(S ''next-verification'', JList [JInt 1]), (S ''output-type'', JStr (S ''integer''))]
        \<lparr>oracle_log = [next_verification_request (JStr (S ''att''))], total_call_count = 0\<rparr>
      = (Inr Wrong,
         \<lparr>oracle_log = [next_verification_request (JStr (S ''att'')),
                         attempt_verification_request (JStr (S ''att'')) (JInt 1)],
           total_call_count = 1\<rparr>)
   \<and> verify (verdict_oracle [S ''ro'']) answering_completionfn example_loads
        example_destructure example_make_verification_message example_value_list_to_map
        example_transcript (JStr (S ''att'')) example_world
      = Some (Inr False,
         \<lparr>oracle_log = [next_verification_request (JStr (S ''att'')),
                         attempt_verification_request (JStr (S ''att'')) (JInt 1)],
           total_call_count = 1\<rparr>)"
proof -
  let ?nv = "next_verification_request (JStr (S ''att''))"
  let ?av = "attempt_verification_request (JStr (S ''att'')) (JInt 1)"
  let ?v = "[(S ''next-verification'', JList [JInt 1]), (S ''output-type'', JStr (S ''integer''))]"
  let ?w0 = "example_world\<lparr>oracle_log := oracle_log example_world @ [?nv]\<rparr>"
  let ?w1 = "?w0\<lparr>total_call_count := Suc (total_call_count ?w0)\<rparr>"
  have s: "sublist (S ''ro'') (S ''wrong'')"
    by (simp add: str_in_iff_sublist[symmetric] S_def)
  have h1: "verdict_oracle [S ''ro''] (oracle_log example_world) ?nv = ?v"
    by (simp add: verdict_oracle_def next_verification_request_def)
  have h2: "?v \<noteq> []" by simp
  have g1: "dict_getitem ?v (S ''next-verification'') = Inr (JList [JInt 1])"
    and g2: "dict_getitem ?v (S ''output-type'') = Inr (JStr (S ''integer''))"
    by (simp_all add: dict_getitem_def)
  have m: "example_transcript \<noteq> []" by (simp add: example_transcript_def)
  have va: "verification_attempts answering_completionfn example_loads example_destructure
           [last example_transcript,
            example_make_verification_message (example_value_list_to_map (JList [JInt 1]))]
           0 ?w0 = (Inr (JStr (S ''t''), JInt 1), ?w1)"
    by (rule verification_attempts_success)
       (simp_all add: first_text_answering example_parse_answer)
  have st: "dict_getitem (verdict_oracle [S ''ro''] (oracle_log ?w1) ?av) (S ''status'')
            = Inr (JStr (S ''ro''))"
    by (simp add: verdict_oracle_def attempt_verification_request_def next_verification_request_def
        dict_getitem_def example_world_def)
  from verify_status_by_containment[where make_verification_message=example_make_verification_message
      and value_list_to_map=example_value_list_to_map and postfn="verdict_oracle [S ''ro'']"
      and completionfn=answering_completionfn and loads=example_loads
      and destructure=example_destructure and messages=example_transcript
      and attempt_id="JStr (S ''att'')" and w=example_world
      and verification="JList [JInt 1]" and thoughts="JStr (S ''t'')" and expected_output="JInt 1"
      and s="S ''ro''", OF h1 h2 g1 g2 m va st refl] s
  show ?thesis
    by (simp add: example_world_def)
qed

text \<open>
  C10 as stated, in its second half: \<open>on\<close> is a contiguous substring of \<open>done\<close>, but the
  test for \<open>wrong\<close> comes first and \<open>on\<close> is a substring of \<open>wrong\<close> as well: the failure
  branch is taken and \<open>verify\<close> returns \<open>False\<close>.
\<close>

theorem verify_status_counterexample:
  "sublist (S ''on'') (S ''done'')
   \<and> verify (verdict_oracle [S ''on'']) answering_completionfn example_loads
        example_destructure example_make_verification_message example_value_list_to_map
        example_transcript (JStr (S ''att'')) example_world
      = Some (Inr False,
         \<lparr>oracle_log = [next_verification_request (JStr (S ''att'')),
                         attempt_verification_request (JStr (S ''att'')) (JInt 1)],
           total_call_count = 1\<rparr>)"
proof -
  have m: "example_transcript \<noteq> []" by (simp add: example_transcript_def)
  have s: "sublist (S ''on'') (S ''done'')" "str_in (S ''on'') (S ''wrong'')"
    by (simp_all add: str_in_iff_sublist[symmetric] S_def)
  have "verify (verdict_oracle [S ''on'']) answering_completionfn example_loads
        example_destructure example_make_verification_message example_value_list_to_map
        example_transcript (JStr (S ''att'')) example_world
      = Some (Inr False,
         \<lparr>oracle_log = [next_verification_request (JStr (S ''att'')),
                         attempt_verification_request (JStr (S ''att'')) (JInt 1)],
           total_call_count = 1\<rparr>)"
    by (subst answering_pass[OF m refl refl]) (simp add: example_world_def s)
  with s show ?thesis by simp
qed

text \<open>
  C5, at a verdict that is neither \<open>wrong\<close> nor \<open>done\<close>: the oracle answers the first
  prediction with the status \<open>w\<close> and has further cases, with the verdicts \<open>correct\<close> and
  \<open>done\<close>. \<open>verify\<close> returns \<open>False\<close> after the first prediction and asks for no further case.
\<close>

theorem verify_other_verdict_returns_false:
  "S ''w'' \<noteq> S ''wrong'' \<and> S ''w'' \<noteq> S ''done''
   \<and> verify (verdict_oracle [S ''w'', S ''correct'', S ''done'']) answering_completionfn
        example_loads example_destructure example_make_verification_message
        example_value_list_to_map example_transcript (JStr (S ''att'')) example_world
      = Some (Inr False,
         \<lparr>oracle_log = [next_verification_request (JStr (S ''att'')),
                         attempt_verification_request (JStr (S ''att'')) (JInt 1)],
           total_call_count = 1\<rparr>)"
proof -
  have m: "example_transcript \<noteq> []" by (simp add: example_transcript_def)
  have s: "str_in (S ''w'') (S ''wrong'')"
    by (simp add: S_def)
  have "verify (verdict_oracle [S ''w'', S ''correct'', S ''done'']) answering_completionfn
        example_loads example_destructure example_make_verification_message
        example_value_list_to_map example_transcript (JStr (S ''att'')) example_world
      = Some (Inr False,
         \<lparr>oracle_log = [next_verification_request (JStr (S ''att'')),
                         attempt_verification_request (JStr (S ''att'')) (JInt 1)],
           total_call_count = 1\<rparr>)"
    by (subst answering_pass[OF m refl refl]) (simp add: example_world_def s)
  then show ?thesis by simp
qed

text \<open>
  C6 (as amended). When \<open>json.loads\<close> (or the extraction of the two fields) raises
  \<open>JSONDecodeError\<close> on each of three completions in a row, the completion-and-parse step
  has been made exactly three times, nothing is raised by it, and the prediction is
  submitted with \<open>thoughts\<close> and \<open>expected_output\<close> both \<open>""\<close>. In no case are more than three
  completions requested for one verification case (\<open>verification_attempts_bound\<close>).
\<close>

theorem verification_retries_then_empty_prediction:
  assumes "dict_getitem v_data (S ''next-verification'') = Inr verification"
    and "dict_getitem v_data (S ''output-type'') = Inr output_type"
    and "messages \<noteq> []"
    and "vmessages = [last messages, make_verification_message (value_list_to_map verification)]"
    and "\<forall>i<3. parse_response loads destructure
              (first_text (completionfn (total_call_count w + i) vmessages None))
            = Inl JSONDecodeError"
  shows "verification_attempts completionfn loads destructure vmessages 0 w
           = (Inr (JStr [], JStr []), w\<lparr>total_call_count := total_call_count w + 3\<rparr>)
       \<and> verify_case postfn completionfn loads destructure make_verification_message
           value_list_to_map messages attempt_id v_data w
           = (case dict_getitem (postfn (oracle_log w) (attempt_verification_request attempt_id (JStr [])))
                     (S ''status'') of
                Inl e \<Rightarrow> Inl e
              | Inr (JStr vstatus) \<Rightarrow>
                  Inr (if str_in vstatus (S ''wrong'') then Wrong
                       else if str_in vstatus (S ''done'') then Done else Continue)
              | Inr _ \<Rightarrow> Inl TypeError,
              w\<lparr>total_call_count := total_call_count w + 3,
                oracle_log := oracle_log w @ [attempt_verification_request attempt_id (JStr [])]\<rparr>)"
proof -
  have va: "verification_attempts completionfn loads destructure vmessages 0 w
           = (Inr (JStr [], JStr []), w\<lparr>total_call_count := total_call_count w + 3\<rparr>)"
    using assms(5) by (rule verification_attempts_exhausted)
  have "verify_case postfn completionfn loads destructure make_verification_message
           value_list_to_map messages attempt_id v_data w
           = (case dict_getitem (postfn (oracle_log w) (attempt_verification_request attempt_id (JStr [])))
                     (S ''status'') of
                Inl e \<Rightarrow> Inl e
              | Inr (JStr vstatus) \<Rightarrow>
                  Inr (if str_in vstatus (S ''wrong'') then Wrong
                       else if str_in vstatus (S ''done'') then Done else Continue)
              | Inr _ \<Rightarrow> Inl TypeError,
              w\<lparr>total_call_count := total_call_count w + 3,
                oracle_log := oracle_log w @ [attempt_verification_request attempt_id (JStr [])]\<rparr>)"
    using assms(1,2,3) va[unfolded assms(4)]
    by (simp add: verify_case_def call_post_def attempt_verification_request_def
        split: sum.splits json.splits)
  with va show ?thesis by simp
qed


lemma parse_garbled:
  "parse_response example_loads example_destructure (first_text (garbled_completionfn n msgs tls))
     = Inl JSONDecodeError"
proof -
  have f: "first_text (garbled_completionfn n msgs tls) = Some (S ''oops'')"
    by (simp add: first_text_def garbled_completionfn_def List.map_filter_simps)
  have c: "clean_response (Some (S ''oops'')) = Some (S ''oops'')"
    by (simp add: clean_response_def py_strip_def py_isspace_def S_def suffix_to_prefix)
  have l: "example_loads (S ''oops'') = Inl JSONDecodeError"
    by (simp add: example_loads_def json_strip_def json_isspace_def example_answer_codes S_def)
  show ?thesis
    unfolding f parse_response_def c option.case l by simp
qed

theorem verification_retries_then_empty_prediction_witness:
  "verification_attempts garbled_completionfn example_loads example_destructure
      [last example_transcript,
       example_make_verification_message (example_value_list_to_map (JList [JInt 1]))] 0
      example_world
     = (Inr (JStr [], JStr []), \<lparr>oracle_log = [], total_call_count = 3\<rparr>)
   \<and> verify_case (verdict_oracle [S ''wrong'']) garbled_completionfn example_loads
        example_destructure example_make_verification_message example_value_list_to_map
        example_transcript (JStr (S ''att''))
        [(S ''next-verification'', JList [JInt 1]), (S ''output-type'', JStr (S ''integer''))]
        example_world
     = (Inr Wrong,
        \<lparr>oracle_log = [attempt_verification_request (JStr (S ''att'')) (JStr [])],
          total_call_count = 3\<rparr>)"
proof -
  let ?v = "[(S ''next-verification'', JList [JInt 1]), (S ''output-type'', JStr (S ''integer''))]"
  have g1: "dict_getitem ?v (S ''next-verification'') = Inr (JList [JInt 1])"
    and g2: "dict_getitem ?v (S ''output-type'') = Inr (JStr (S ''integer''))"
    by (simp_all add: dict_getitem_def)
  have m: "example_transcript \<noteq> []" by (simp add: example_transcript_def)
  have p: "\<forall>i<3. parse_response example_loads example_destructure
              (first_text (garbled_completionfn (total_call_count example_world + i)
                 [last example_transcript,
                  example_make_verification_message (example_value_list_to_map (JList [JInt 1]))]
                 None))
            = Inl JSONDecodeError"
    by (simp add: parse_garbled)
  have st: "dict_getitem (verdict_oracle [S ''wrong''] (oracle_log example_world)
              (attempt_verification_request (JStr (S ''att'')) (JStr []))) (S ''status'')
            = Inr (JStr (S ''wrong''))"
    by (simp add: verdict_oracle_def attempt_verification_request_def dict_getitem_def
        example_world_def)
  have w: "str_in (S ''wrong'') (S ''wrong'')" by (simp add: S_def)
  from verification_retries_then_empty_prediction[where
      make_verification_message=example_make_verification_message
      and value_list_to_map=example_value_list_to_map and postfn="verdict_oracle [S ''wrong'']"
      and completionfn=garbled_completionfn and loads=example_loads
      and destructure=example_destructure and messages=example_transcript
      and attempt_id="JStr (S ''att'')" and w=example_world
      and verification="JList [JInt 1]", OF g1 g2 m refl p]
  show ?thesis
    by (simp add: st w) (simp add: example_world_def)
qed

text \<open>
  C6 as stated: a completion without a text block cannot be parsed, and the failure is not a
  \<open>JSONDecodeError\<close>: \<open>json.loads(None)\<close> raises \<open>TypeError\<close>, which nothing catches. \<open>verify\<close>
  raises it after one completion, without a retry and without submitting a prediction.
\<close>

theorem verification_parse_failure_counterexample:
  "first_text (silent_completionfn 0 [] None) = None
   \<and> verify (verdict_oracle []) silent_completionfn example_loads example_destructure
        example_make_verification_message example_value_list_to_map
        example_transcript (JStr (S ''att'')) example_world
      = Some (Inl TypeError,
          \<lparr>oracle_log = [next_verification_request (JStr (S ''att''))], total_call_count = 1\<rparr>)"
proof -
  let ?nv = "next_verification_request (JStr (S ''att''))"
  let ?v = "[(S ''next-verification'', JList [JInt 1]), (S ''output-type'', JStr (S ''integer''))]"
  let ?w0 = "example_world\<lparr>oracle_log := oracle_log example_world @ [?nv]\<rparr>"
  have f: "first_text (silent_completionfn n msgs tls) = None" for n msgs tls
    by (simp add: first_text_def silent_completionfn_def List.map_filter_simps)
  have v: "verdict_oracle [] (oracle_log example_world) ?nv = ?v"
    by (simp add: verdict_oracle_def next_verification_request_def)
  have g1: "dict_getitem ?v (S ''next-verification'') = Inr (JList [JInt 1])"
    and g2: "dict_getitem ?v (S ''output-type'') = Inr (JStr (S ''integer''))"
    by (simp_all add: dict_getitem_def)
  have m: "example_transcript \<noteq> []" by (simp add: example_transcript_def)
  have va: "verification_attempts silent_completionfn example_loads example_destructure
           [last example_transcript,
            example_make_verification_message (example_value_list_to_map (JList [JInt 1]))]
           0 ?w0 = (Inl TypeError, ?w0\<lparr>total_call_count := Suc (total_call_count ?w0)\<rparr>)"
    by (rule verification_attempts_raise)
       (simp_all add: f parse_response_def clean_response_def)
  have c: "verify_case (verdict_oracle []) silent_completionfn example_loads example_destructure
        example_make_verification_message example_value_list_to_map
        example_transcript (JStr (S ''att'')) ?v ?w0
      = (Inl TypeError, ?w0\<lparr>total_call_count := Suc (total_call_count ?w0)\<rparr>)"
    using g1 g2 m va by (rule verify_case_parse_raises)
  have "verify (verdict_oracle []) silent_completionfn example_loads example_destructure
        example_make_verification_message example_value_list_to_map
        example_transcript (JStr (S ''att'')) example_world
      = Some (Inl TypeError,
          \<lparr>oracle_log = [?nv], total_call_count = 1\<rparr>)"
    by (subst verify.simps)
       (simp add: call_post_def next_verification_request_def[symmetric] v c,
        simp add: example_world_def)
  with f show ?thesis by simp
qed

subsection \<open>The verdict tests in the OpenAI and Google loops\<close>

text \<open>
  The two other verification loops read the status with the same two containment tests, in
  the same order, so a pass that gets as far as the verdict ends as in the Anthropic loop.
\<close>

lemma openai_verify_status_by_containment:
  assumes "postfn (oracle_log w) (next_verification_request attempt_id) = v_data"
    and "v_data \<noteq> []"
    and "dict_getitem v_data (S ''next-verification'') = Inr verification"
    and "dict_getitem v_data (S ''output-type'') = Inr output_type"
    and "completionfn (total_call_count w) (messages @ [make_verification_message verification])
           (make_schema output_type) = Inr (Some content # choices)"
    and "loads content = Inr parsed"
    and "destructure parsed [S ''thoughts'', S ''expected_output''] = Inr [thoughts, expected_output]"
    and "dict_getitem (postfn (oracle_log w @ [next_verification_request attempt_id])
             (attempt_verification_request attempt_id expected_output))
           (S ''status'') = Inr (JStr s)"
    and "w2 = w\<lparr>oracle_log := oracle_log w @ [next_verification_request attempt_id,
                    attempt_verification_request attempt_id expected_output],
                 total_call_count := Suc (total_call_count w)\<rparr>"
  shows "openai_verify postfn completionfn loads destructure make_verification_message make_schema
           messages attempt_id w
         = (if sublist s (S ''wrong'') then Some (Inr False, w2)
            else if sublist s (S ''done'') then Some (Inr True, w2)
            else openai_verify postfn completionfn loads destructure make_verification_message
                   make_schema messages attempt_id w2)"
proof -
  let ?w0 = "w\<lparr>oracle_log := oracle_log w @ [next_verification_request attempt_id]\<rparr>"
  have c: "openai_verify_case postfn completionfn loads destructure make_verification_message
             make_schema messages attempt_id v_data ?w0
           = (Inr (if sublist s (S ''wrong'') then Wrong
                   else if sublist s (S ''done'') then Done else Continue), w2)"
    using assms(3-9)
    by (simp add: openai_verify_case_def call_openai_completion_def call_post_def
          attempt_verification_request_def str_in_iff_sublist)
  show ?thesis
    using assms(1,2)
    by (subst openai_verify.simps)
       (simp add: call_post_def next_verification_request_def[symmetric] c)
qed

lemma google_verify_status_by_containment:
  assumes "postfn (oracle_log w) (next_verification_request attempt_id) = v_data"
    and "v_data \<noteq> []"
    and "dict_getitem v_data (S ''next-verification'') = Inr verification"
    and "dict_getitem v_data (S ''output-type'') = Inr output_type"
    and "completionfn (total_call_count w)
           (messages @ [save_message (S ''user'')
                          (make_verification_message (value_list_to_map verification))])
           (make_schema output_type) = Some (thoughts, expected_output)"
    and "dict_getitem (postfn (oracle_log w @ [next_verification_request attempt_id])
             (attempt_verification_request attempt_id expected_output))
           (S ''status'') = Inr (JStr s)"
    and "w2 = w\<lparr>oracle_log := oracle_log w @ [next_verification_request attempt_id,
                    attempt_verification_request attempt_id expected_output],
                 total_call_count := Suc (total_call_count w)\<rparr>"
  shows "google_verify postfn completionfn save_message make_verification_message value_list_to_map
           make_schema messages attempt_id w
         = (if sublist s (S ''wrong'') then Some (Inr False, w2)
            else if sublist s (S ''done'') then Some (Inr True, w2)
            else google_verify postfn completionfn save_message make_verification_message
                   value_list_to_map make_schema messages attempt_id w2)"
proof -
  let ?w0 = "w\<lparr>oracle_log := oracle_log w @ [next_verification_request attempt_id]\<rparr>"
  have c: "google_verify_case postfn completionfn save_message make_verification_message
             value_list_to_map make_schema messages attempt_id v_data ?w0
           = (Inr (if sublist s (S ''wrong'') then Wrong
                   else if sublist s (S ''done'') then Done else Continue), w2)"
    using assms(3-7)
    by (simp add: google_verify_case_def call_google_completion_def call_post_def
          attempt_verification_request_def str_in_iff_sublist)
  show ?thesis
    using assms(1,2)
    by (subst google_verify.simps)
       (simp add: call_post_def next_verification_request_def[symmetric] c)
qed

section \<open>Properties of the resume\<close>




lemma reset_attempt_False_iff:
  "reset_attempt post str_lower i = Inr False
     \<longleftrightarrow> (\<exists>response. post (reset_request i) = Inr response
                     \<and> \<not> sublist (S ''success'') (str_lower response))
         \<or> (\<exists>e. post (reset_request i) = Inl e \<and> is_Exception e)"
  by (auto simp: reset_attempt_def str_in_iff_sublist split: sum.splits if_splits)

lemma reset_attempt_raises_iff:
  "reset_attempt post str_lower i = Inl e
     \<longleftrightarrow> post (reset_request i) = Inl e \<and> \<not> is_Exception e"
  by (auto simp: reset_attempt_def split: sum.splits if_splits)













text \<open>
  Outside the data model: a snapshot whose attempt in flight has the empty string for
  identifier. The guard \<^verbatim>\<open>if args.resume == "retry" and attempt_id\<close> tests the truth value
  of the identifier, so no reset is asked for and the attempt is in the rebuilt list.
\<close>

lemma start_run_resume_empty_identifier:
  "start_run_resume failing_post example_str_lower Retry
      \<lparr>current_attempt = Some \<lparr>attempt_ident = Some [], other_items = []\<rparr>,
       all_attempts = [\<lparr>attempt_ident = Some [], other_items = []\<rparr>]\<rparr> []
     = (Inr [\<lparr>attempt_ident = Some [], other_items = []\<rparr>], [])"
  by (simp add: start_run_resume_def attempt_truthy_def)

end
